theory Spec2Isabelle
  imports Complex_Main
begin

section \<open>Values that cross the boundary of the program\<close>

text \<open>
  The values that \<open>JSON.parse\<close> returns. Numbers are JavaScript doubles; the model
  takes them as reals, which is enough for the comparisons and the truth tests made by
  the code. An absent property (\<open>undefined\<close>) is \<open>None\<close> of \<open>json option\<close>.
\<close>

datatype json =
    JNull
  | JBool bool
  | JNum real
  | JStr string
  | JArr "json list"
  | JObj "(string \<times> json) list"

text \<open>JavaScript's truth test, as \<open>if (v)\<close> and \<open>v || d\<close> apply it.\<close>

fun truthy :: "json \<Rightarrow> bool" where
  "truthy JNull = False"
| "truthy (JBool b) = b"
| "truthy (JNum n) = (n \<noteq> 0)"
| "truthy (JStr s) = (s \<noteq> [])"
| "truthy (JArr xs) = True"
| "truthy (JObj kvs) = True"

fun truthy_opt :: "json option \<Rightarrow> bool" where
  "truthy_opt None = False"
| "truthy_opt (Some v) = truthy v"

datatype failure_kind = rateLimited | other

text \<open>
  What the code can throw: \<open>new Error(msg)\<close>, the \<open>TypeError\<close> of reading a property of
  \<open>null\<close> or \<open>undefined\<close> or of calling what is no function, and a failure of the
  completion service.
\<close>

datatype js_error =
    Error string
  | TypeError
  | ApiFailure failure_kind string

text \<open>
  \<open>v.k\<close> for the property names the source reads (\<open>domain\<close>, \<open>audience\<close>,
  \<open>length\<close>, \<open>findings\<close>, ...): a property of \<open>null\<close> throws, an object gives the
  value of the last member of that name (as \<open>JSON.parse\<close> keeps it), arrays and strings
  have \<open>length\<close> and none of the other names, numbers and booleans have none.
\<close>

fun get_prop :: "json \<Rightarrow> string \<Rightarrow> js_error + json option" where
  "get_prop JNull k = Inl TypeError"
| "get_prop (JObj kvs) k = Inr (map_of (rev kvs) k)"
| "get_prop (JArr xs) k =
     Inr (if k = ''length'' then Some (JNum (real (length xs))) else None)"
| "get_prop (JStr s) k =
     Inr (if k = ''length'' then Some (JNum (real (length s))) else None)"
| "get_prop (JBool b) k = Inr None"
| "get_prop (JNum n) k = Inr None"

text \<open>\<open>v?.k\<close>: \<open>undefined\<close> when \<open>v\<close> is \<open>undefined\<close> or \<open>null\<close>.\<close>

fun get_prop_opt :: "json option \<Rightarrow> string \<Rightarrow> json option" where
  "get_prop_opt None k = None"
| "get_prop_opt (Some v) k = (case get_prop v k of Inl e \<Rightarrow> None | Inr r \<Rightarrow> r)"

section \<open>The data model of \<open>types.ts\<close>\<close>

text \<open>
  Fields that the code fills from parsed JSON (typed \<open>any\<close> at that point) hold \<open>json\<close>
  values, whatever the TypeScript interface declares.
\<close>

record ResearchDimension =
  dim_id :: string
  dim_name :: json
  dim_description :: json
  evaluationCriteria :: json
  dataPoints :: json
  weight :: "real option"

record QualityCheckConfig =
  qc_type :: string
  criteria :: "string list"
  threshold :: real

record research_context =
  domain :: json
  audience :: json
  perspective :: json
  constraints :: "json option"

text \<open>
  \<open>Partial<ResearchConfig>\<close> as \<open>startConfiguration\<close> creates it: every field of
  \<open>ResearchConfig\<close> but \<open>id\<close>. \<open>ResearchConfig\<close> adds the identifier.
\<close>

record snapshot =
  topic :: string
  cfg_context :: research_context
  dimensions :: "ResearchDimension list"
  outputFormat :: json
  qualityChecks :: "QualityCheckConfig list"

record ResearchConfig = snapshot +
  cfg_id :: string

datatype role = user | assistant

record ConversationTurn =
  role :: role
  content :: string
  timestamp :: int

datatype session_status = active | completed | abandoned

record ConversationState =
  sessionId :: string
  turns :: "ConversationTurn list"
  extractedConfig :: snapshot
  clarificationNeeded :: "string list"
  suggestedTemplate :: "string option"
  status :: session_status


record DimensionResults =
  dimensionId :: string
  findings :: json
  evidence :: json
  confidence :: json
  sources :: json
  metadata :: "(string \<times> json) list"

datatype agent_status = pending | running | agent_completed | failed

record FlexibleSubAgent =
  agent_id :: string
  parentTaskId :: string
  dimension :: ResearchDimension
  agent_status :: agent_status
  results :: "DimensionResults option"

section \<open>The completion service, the clock and the timers\<close>

text \<open>
  A call of \<open>anthropic.messages.create\<close>, named by the place that issues it and by the
  data its prompts are built from. The research call carries its two prompts and the
  identifier of the unit it is issued for, so that the service may answer two units
  differently even where their prompts agree.
\<close>

datatype request =
    ClarifyReq string "string option"
  | ContinueReq snapshot "(role \<times> string) list"
  | ExtractReq "(role \<times> string) list"
  | DimensionsReq "(role \<times> string) list"
  | ResearchReq string string string
  | StructuringReq string ResearchDimension

datatype depth = basic | comprehensive

datatype content_block = TextBlock string | NonTextBlock

text \<open>The \<open>content\<close> array of a response.\<close>

type_synonym completion = "content_block list"

text \<open>
  What the model leaves open: the answers of the completion service and the time they
  take, the overshoot of a timer set at a given time, \<open>JSON.parse\<close> (\<open>None\<close> where it
  throws a \<open>SyntaxError\<close>), the identifiers that \<open>randomUUID\<close> draws, the rendering of
  a time by \<open>toISOString\<close>, and the texts of the two prompts of a research call. A
  prompt builder is any function of its arguments that returns a text or throws (as
  reading a property of a value that is not of the declared type does).
\<close>

record env =
  complete :: "request \<Rightarrow> js_error + completion"
  latency :: "request \<Rightarrow> nat"
  late :: "int \<Rightarrow> nat"
  JSON_parse :: "string \<Rightarrow> json option"
  randomUUID :: "nat \<Rightarrow> string"
  toISOString :: "int \<Rightarrow> string"
  generateSystemPrompt :: "ResearchConfig \<Rightarrow> ResearchDimension \<Rightarrow> js_error + string"
  generateResearchPrompt :: "ResearchConfig \<Rightarrow> ResearchDimension \<Rightarrow> depth \<Rightarrow> bool \<Rightarrow> js_error + string"

datatype event = Call request | Sleep "int option"

text \<open>
  The state outside the objects: \<open>Date.now()\<close>, the calls issued and the timers
  awaited so far, and how many identifiers were drawn.
\<close>

record world =
  clock :: int
  trace :: "event list"
  drawn :: nat

text \<open>
  \<open>await new Promise(resolve => setTimeout(resolve, d))\<close>: the caller resumes no earlier
  than \<open>d\<close> milliseconds later; a negative or \<open>NaN\<close> delay (\<open>None\<close>) is no delay.
\<close>

definition sleep :: "env \<Rightarrow> int option \<Rightarrow> world \<Rightarrow> world" where
  "sleep e d w =
     w\<lparr>clock := clock w + (case d of None \<Rightarrow> 0 | Some ms \<Rightarrow> max ms 0) + int (late e (clock w)),
       trace := trace w @ [Sleep d]\<rparr>"

text \<open>\<open>await this.anthropic.messages.create(...)\<close>.\<close>

definition call_service :: "env \<Rightarrow> request \<Rightarrow> world \<Rightarrow> (js_error + completion) \<times> world" where
  "call_service e r w =
     (complete e r, w\<lparr>clock := clock w + int (latency e r), trace := trace w @ [Call r]\<rparr>)"

text \<open>
  \<open>c.content[0].type === 'text' ? c.content[0].text : dflt\<close>: reading \<open>type\<close> of the
  first block of an empty \<open>content\<close> throws.
\<close>

fun first_text_or :: "string \<Rightarrow> completion \<Rightarrow> js_error + string" where
  "first_text_or dflt [] = Inl TypeError"
| "first_text_or dflt (TextBlock t # bs) = Inr t"
| "first_text_or dflt (NonTextBlock # bs) = Inr dflt"

text \<open>The number of calls to the completion service in a trace.\<close>

fun is_call :: "event \<Rightarrow> bool" where
  "is_call (Call r) = True"
| "is_call (Sleep d) = False"

definition calls :: "world \<Rightarrow> nat" where
  "calls w = length (filter is_call (trace w))"

section \<open>\<open>rate-limiter.ts\<close>\<close>

record RateLimiter =
  requestTimes :: "int list"
  maxRequests :: int
  windowMs :: int

definition RateLimiter_new :: "int \<Rightarrow> int \<Rightarrow> RateLimiter" where
  "RateLimiter_new maxR win = \<lparr>requestTimes = [], maxRequests = maxR, windowMs = win\<rparr>"

text \<open>Lines 15-17 and 37-39: drop the requests outside the window.\<close>

definition purge :: "int \<Rightarrow> RateLimiter \<Rightarrow> RateLimiter" where
  "purge now rl = rl\<lparr>requestTimes := filter (\<lambda>time. now - time < windowMs rl) (requestTimes rl)\<rparr>"

datatype pass = Admitted | Wait "int option"

text \<open>
  The part of \<open>waitIfNeeded\<close> that runs without suspension (lines 12-32): purge, then
  either record \<open>now\<close> or compute the time to wait. \<open>requestTimes[0]\<close> of an empty array
  is \<open>undefined\<close> and the wait is \<open>NaN\<close>.
\<close>

definition pass :: "int \<Rightarrow> RateLimiter \<Rightarrow> pass \<times> RateLimiter" where
  "pass now rl =
     (let rl1 = purge now rl in
      if int (length (requestTimes rl1)) \<ge> maxRequests rl1 then
        (Wait (case requestTimes rl1 of
                 [] \<Rightarrow> None
               | oldestRequest # rest \<Rightarrow> Some (windowMs rl1 - (now - oldestRequest) + 100)),
         rl1)
      else (Admitted, rl1\<lparr>requestTimes := requestTimes rl1 @ [now]\<rparr>))"

text \<open>
  \<open>waitIfNeeded\<close>: after the wait the method calls itself. A call that never returns
  is \<open>None\<close>.
\<close>

partial_function (option) waitIfNeeded :: "env \<Rightarrow> RateLimiter \<Rightarrow> world \<Rightarrow> (RateLimiter \<times> world) option" where
  "waitIfNeeded e rl w =
     (case pass (clock w) rl of
        (Admitted, rl1) \<Rightarrow> Some (rl1, w)
      | (Wait waitTime, rl1) \<Rightarrow> waitIfNeeded e rl1 (sleep e waitTime w))"

definition getRequestsRemaining :: "int \<Rightarrow> RateLimiter \<Rightarrow> int \<times> RateLimiter" where
  "getRequestsRemaining now rl =
     (let rl1 = purge now rl in (max 0 (maxRequests rl1 - int (length (requestTimes rl1))), rl1))"

text \<open>
  Callers of one limiter interleave only where they are suspended, so what the limiter
  sees is a sequence of uninterrupted steps, each at the time \<open>Date.now()\<close> gives it:
  a pass of \<open>waitIfNeeded\<close> (of any caller, first or repeated) or a
  \<open>getRequestsRemaining\<close>. \<open>run_limiter\<close> runs such a sequence and records next to the
  limiter every admission made, purged or not.
\<close>

datatype limiter_op = PassOp | RemainingOp

fun limiter_step :: "RateLimiter \<times> int list \<Rightarrow> int \<times> limiter_op \<Rightarrow> RateLimiter \<times> int list" where
  "limiter_step (rl, admitted) (now, PassOp) =
     (case pass now rl of
        (Admitted, rl1) \<Rightarrow> (rl1, admitted @ [now])
      | (Wait waitTime, rl1) \<Rightarrow> (rl1, admitted))"
| "limiter_step (rl, admitted) (now, RemainingOp) = (snd (getRequestsRemaining now rl), admitted)"

definition run_limiter :: "int \<Rightarrow> int \<Rightarrow> (int \<times> limiter_op) list \<Rightarrow> RateLimiter \<times> int list" where
  "run_limiter maxR win steps = foldl limiter_step (RateLimiter_new maxR win, []) steps"

section \<open>Strings\<close>

text \<open>
  Strings are taken as sequences of ASCII characters. \<open>toLowerCase\<close> maps \<open>A\<close>-\<open>Z\<close> to
  \<open>a\<close>-\<open>z\<close> and leaves every other character as it is.
\<close>

definition lower_char :: "char \<Rightarrow> char" where
  "lower_char c =
     (let n = (of_char c :: nat) in if 65 \<le> n \<and> n \<le> 90 then char_of (n + 32) else c)"

definition toLowerCase :: "string \<Rightarrow> string" where
  "toLowerCase s = map lower_char s"

fun startsWith :: "string \<Rightarrow> string \<Rightarrow> bool" where
  "startsWith s [] = True"
| "startsWith [] (k # ks) = False"
| "startsWith (c # cs) (k # ks) = (c = k \<and> startsWith cs ks)"

text \<open>\<open>s.includes(k)\<close>: \<open>k\<close> occurs in \<open>s\<close> as a contiguous substring.\<close>

fun includes_str :: "string \<Rightarrow> string \<Rightarrow> bool" where
  "includes_str [] k = (k = [])"
| "includes_str (c # cs) k = (startsWith (c # cs) k \<or> includes_str cs k)"

text \<open>The decimal digits of a number, as a template literal prints it.\<close>

fun show_nat :: "nat \<Rightarrow> string" where
  "show_nat n =
     (if n < 10 then [char_of (48 + n)] else show_nat (n div 10) @ [char_of (48 + n mod 10)])"

section \<open>\<open>research-templates.ts\<close>\<close>



text \<open>The table \<open>keywords\<close> that \<open>suggestTemplate\<close> declares, in the order of its keys.\<close>

definition keyword_table :: "(string \<times> string list) list" where
  "keyword_table = [
     (''market_research'', [''market'', ''customers'', ''competition'', ''opportunity'', ''demand'', ''growth'']),
     (''academic_research'', [''literature'', ''research'', ''theory'', ''study'', ''academic'', ''papers'']),
     (''competitive_analysis'', [''competitors'', ''competitive'', ''rivalry'', ''positioning'', ''strategy'']),
     (''technology_assessment'', [''technology'', ''technical'', ''software'', ''platform'', ''tool'', ''system''])]"

text \<open>Lines 261-263: the number of keywords of a domain that occur in the description.\<close>

definition score :: "string \<Rightarrow> string list \<Rightarrow> nat" where
  "score lowercaseDesc domainKeywords =
     length (filter (\<lambda>keyword. includes_str lowercaseDesc keyword) domainKeywords)"

text \<open>
  The loop of lines 260-268 over the entries of the table that are still to visit;
  \<open>bestMatch\<close> is \<open>None\<close> while it is \<open>undefined\<close>.
\<close>

fun suggest_loop :: "(string \<times> string list) list \<Rightarrow> string \<Rightarrow> (string \<times> nat) option \<Rightarrow> (string \<times> nat) option" where
  "suggest_loop [] lowercaseDesc bestMatch = bestMatch"
| "suggest_loop ((d, domainKeywords) # rest) lowercaseDesc bestMatch =
     (let sc = score lowercaseDesc domainKeywords in
      if sc > 0 \<and> (case bestMatch of None \<Rightarrow> True | Some (bd, bs) \<Rightarrow> sc > bs)
      then suggest_loop rest lowercaseDesc (Some (d, sc))
      else suggest_loop rest lowercaseDesc bestMatch)"

text \<open>
  \<open>suggestTemplate\<close> with its keyword table as a parameter, and the function of the
  source, which fixes the table.
\<close>

definition suggestTemplateWith :: "(string \<times> string list) list \<Rightarrow> string \<Rightarrow> string option" where
  "suggestTemplateWith table description =
     map_option fst (suggest_loop table (toLowerCase description) None)"

definition suggestTemplate :: "string \<Rightarrow> string option" where
  "suggestTemplate description = suggestTemplateWith keyword_table description"


declare show_nat.simps [simp del]

text \<open>
  The two keyword lists of the scenario that the specification gives for the hint, in
  place of the table of the source.
\<close>

definition scenario_keywords :: "(string \<times> string list) list" where
  "scenario_keywords = [
     (''market_research'', [''market'', ''demand'']),
     (''academic_research'', [''literature'', ''study''])]"

section \<open>\<open>configuration-wizard.ts\<close>\<close>

record ConfigurationWizard =
  conversations :: "string \<Rightarrow> ConversationState option"
  rateLimiter :: RateLimiter

definition ConfigurationWizard_new :: ConfigurationWizard where
  "ConfigurationWizard_new = \<lparr>conversations = Map.empty, rateLimiter = RateLimiter_new 10 60000\<rparr>"

definition draw_uuid :: "env \<Rightarrow> world \<Rightarrow> string \<times> world" where
  "draw_uuid e w = (randomUUID e (drawn w), w\<lparr>drawn := Suc (drawn w)\<rparr>)"

text \<open>\<open>a || b\<close>, for a value and for a property that may be absent.\<close>

definition js_or :: "json \<Rightarrow> json \<Rightarrow> json" where
  "js_or a b = (if truthy a then a else b)"

fun js_or_opt :: "json option \<Rightarrow> json \<Rightarrow> json" where
  "js_or_opt None b = b"
| "js_or_opt (Some a) b = js_or a b"

text \<open>The conversation as the prompts render it: role and content of every turn.\<close>

definition history :: "ConversationTurn list \<Rightarrow> (role \<times> string) list" where
  "history ts = map (\<lambda>turn. (role turn, content turn)) ts"

record StartResult =
  sr_sessionId :: string
  sr_response :: string
  sr_suggestedTemplate :: "string option"

text \<open>
  Every operation returns \<open>None\<close> when it never returns, and otherwise what it throws
  (\<open>Inl\<close>) or returns (\<open>Inr\<close>) together with the state it leaves.
\<close>

definition startConfiguration ::
  "env \<Rightarrow> string \<Rightarrow> ConfigurationWizard \<Rightarrow> world \<Rightarrow> ((js_error + StartResult) \<times> ConfigurationWizard \<times> world) option" where
  "startConfiguration e initialDescription wz w =
     (let (sid, w1) = draw_uuid e w;
          suggestedDomain = suggestTemplate initialDescription;
          state = \<lparr>sessionId = sid,
                   turns = [\<lparr>role = user, content = initialDescription, timestamp = clock w1\<rparr>],
                   extractedConfig =
                     \<lparr>topic = initialDescription,
                      cfg_context =
                        \<lparr>domain = JStr (case suggestedDomain of
                                          None \<Rightarrow> ''custom''
                                        | Some d \<Rightarrow> if d = [] then ''custom'' else d),
                         audience = JArr [],
                         perspective = JStr [],
                         constraints = None\<rparr>,
                      dimensions = [],
                      outputFormat = JStr ''synthesis'',
                      qualityChecks = []\<rparr>,
                   clarificationNeeded = [],
                   suggestedTemplate = suggestedDomain,
                   status = active\<rparr>;
          wz1 = wz\<lparr>conversations := (conversations wz)(sid \<mapsto> state)\<rparr>
      in case waitIfNeeded e (rateLimiter wz1) w1 of
           None \<Rightarrow> None
         | Some (rl, w2) \<Rightarrow>
             (let wz2 = wz1\<lparr>rateLimiter := rl\<rparr> in
              case call_service e (ClarifyReq initialDescription suggestedDomain) w2 of
                (Inl err, w3) \<Rightarrow> Some (Inl err, wz2, w3)
              | (Inr completion, w3) \<Rightarrow>
                  (case first_text_or [] completion of
                     Inl err \<Rightarrow> Some (Inl err, wz2, w3)
                   | Inr response \<Rightarrow>
                       Some (Inr \<lparr>sr_sessionId = sid, sr_response = response,
                                  sr_suggestedTemplate = suggestedDomain\<rparr>,
                             wz2\<lparr>conversations := (conversations wz2)(sid \<mapsto>
                                   state\<lparr>turns := turns state @
                                     [\<lparr>role = assistant, content = response, timestamp = clock w3\<rparr>]\<rparr>)\<rparr>,
                             w3))))"

text \<open>The assignments of lines 194-206 to the fields of \<open>state.extractedConfig\<close>.\<close>

definition set_domain :: "json \<Rightarrow> ConversationState \<Rightarrow> ConversationState" where
  "set_domain v state =
     state\<lparr>extractedConfig := (extractedConfig state)
       \<lparr>cfg_context := (cfg_context (extractedConfig state))\<lparr>domain := v\<rparr>\<rparr>\<rparr>"

definition set_audience :: "json \<Rightarrow> ConversationState \<Rightarrow> ConversationState" where
  "set_audience v state =
     state\<lparr>extractedConfig := (extractedConfig state)
       \<lparr>cfg_context := (cfg_context (extractedConfig state))\<lparr>audience := v\<rparr>\<rparr>\<rparr>"

definition set_perspective :: "json \<Rightarrow> ConversationState \<Rightarrow> ConversationState" where
  "set_perspective v state =
     state\<lparr>extractedConfig := (extractedConfig state)
       \<lparr>cfg_context := (cfg_context (extractedConfig state))\<lparr>perspective := v\<rparr>\<rparr>\<rparr>"

definition set_outputFormat :: "json \<Rightarrow> ConversationState \<Rightarrow> ConversationState" where
  "set_outputFormat v state =
     state\<lparr>extractedConfig := (extractedConfig state)\<lparr>outputFormat := v\<rparr>\<rparr>"

definition set_constraints :: "json \<Rightarrow> ConversationState \<Rightarrow> ConversationState" where
  "set_constraints v state =
     state\<lparr>extractedConfig := (extractedConfig state)
       \<lparr>cfg_context := (cfg_context (extractedConfig state))\<lparr>constraints := Some v\<rparr>\<rparr>\<rparr>"

text \<open>
  Lines 192-212, after \<open>JSON.parse\<close> has returned \<open>extractedJson\<close>: the five guarded
  assignments and the completion flag. A throw (\<open>Inl\<close>) leaves the state as the
  assignments before it made it.
\<close>

definition apply_extraction :: "json \<Rightarrow> ConversationState \<Rightarrow> (js_error + json) \<times> ConversationState" where
  "apply_extraction extractedJson state =
     (case get_prop extractedJson ''domain'' of
        Inl err \<Rightarrow> (Inl err, state)
      | Inr d \<Rightarrow>
     (let s1 = (case d of None \<Rightarrow> state | Some v \<Rightarrow> if truthy v then set_domain v state else state) in
      case get_prop extractedJson ''audience'' of
        Inl err \<Rightarrow> (Inl err, s1)
      | Inr a \<Rightarrow>
     (let s2 = (case a of
                  None \<Rightarrow> s1
                | Some v \<Rightarrow> if truthy_opt (get_prop_opt a ''length'') then set_audience v s1 else s1) in
      case get_prop extractedJson ''perspective'' of
        Inl err \<Rightarrow> (Inl err, s2)
      | Inr p \<Rightarrow>
     (let s3 = (case p of None \<Rightarrow> s2 | Some v \<Rightarrow> if truthy v then set_perspective v s2 else s2) in
      case get_prop extractedJson ''outputFormat'' of
        Inl err \<Rightarrow> (Inl err, s3)
      | Inr f \<Rightarrow>
     (let s4 = (case f of None \<Rightarrow> s3 | Some v \<Rightarrow> if truthy v then set_outputFormat v s3 else s3) in
      case get_prop extractedJson ''constraints'' of
        Inl err \<Rightarrow> (Inl err, s4)
      | Inr c \<Rightarrow>
     (let s5 = (case c of None \<Rightarrow> s4 | Some v \<Rightarrow> if truthy v then set_constraints v s4 else s4) in
      case get_prop extractedJson ''isComplete'' of
        Inl err \<Rightarrow> (Inl err, s5)
      | Inr ic \<Rightarrow>
     (let configComplete = js_or_opt ic (JBool False) in
      (Inr configComplete,
       if truthy configComplete then s5\<lparr>status := completed\<rparr> else s5))))))))"

text \<open>
  The \<open>try\<close> of lines 185-225: the text of the extraction response (\<open>'{}'\<close> when its
  first block is no text), \<open>JSON.parse\<close>, the assignments. Whatever is thrown inside
  is caught, and the completion flag is then \<open>false\<close>.
\<close>

definition extraction_try :: "env \<Rightarrow> completion \<Rightarrow> ConversationState \<Rightarrow> json \<times> ConversationState" where
  "extraction_try e extractionCompletion state =
     (case first_text_or ''{}'' extractionCompletion of
        Inl err \<Rightarrow> (JBool False, state)
      | Inr txt \<Rightarrow>
          (case JSON_parse e txt of
             None \<Rightarrow> (JBool False, state)
           | Some extractedJson \<Rightarrow>
               (case apply_extraction extractedJson state of
                  (Inl err, s) \<Rightarrow> (JBool False, s)
                | (Inr configComplete, s) \<Rightarrow> (configComplete, s))))"

record ContinueResult =
  cr_response :: string
  configComplete :: json
  cr_extractedConfig :: snapshot

definition continueConfiguration ::
  "env \<Rightarrow> string \<Rightarrow> string \<Rightarrow> ConfigurationWizard \<Rightarrow> world \<Rightarrow>
     ((js_error + ContinueResult) \<times> ConfigurationWizard \<times> world) option" where
  "continueConfiguration e sid userResponse wz w =
     (case conversations wz sid of
        None \<Rightarrow> Some (Inl (Error ''Invalid or expired session''), wz, w)
      | Some state \<Rightarrow>
          if status state \<noteq> active then Some (Inl (Error ''Invalid or expired session''), wz, w)
          else
            (let state1 = state\<lparr>turns := turns state @
                            [\<lparr>role = user, content = userResponse, timestamp = clock w\<rparr>]\<rparr>;
                 conversationHistory = history (turns state1);
                 wz1 = wz\<lparr>conversations := (conversations wz)(sid \<mapsto> state1)\<rparr>
             in case waitIfNeeded e (rateLimiter wz1) w of
                  None \<Rightarrow> None
                | Some (rl, w1) \<Rightarrow>
                    (let wz2 = wz1\<lparr>rateLimiter := rl\<rparr> in
                     case call_service e (ContinueReq (extractedConfig state1) conversationHistory) w1 of
                       (Inl err, w2) \<Rightarrow> Some (Inl err, wz2, w2)
                     | (Inr completion, w2) \<Rightarrow>
                         (case first_text_or [] completion of
                            Inl err \<Rightarrow> Some (Inl err, wz2, w2)
                          | Inr response \<Rightarrow>
                              (let state2 = state1\<lparr>turns := turns state1 @
                                     [\<lparr>role = assistant, content = response, timestamp = clock w2\<rparr>]\<rparr>;
                                   wz3 = wz2\<lparr>conversations := (conversations wz2)(sid \<mapsto> state2)\<rparr>
                               in case call_service e (ExtractReq conversationHistory) w2 of
                                    (Inl err, w3) \<Rightarrow> Some (Inl err, wz3, w3)
                                  | (Inr extractionCompletion, w3) \<Rightarrow>
                                      (let (flag, state3) = extraction_try e extractionCompletion state2 in
                                       Some (Inr \<lparr>cr_response = response, configComplete = flag,
                                                  cr_extractedConfig = extractedConfig state3\<rparr>,
                                             wz3\<lparr>conversations := (conversations wz3)(sid \<mapsto> state3)\<rparr>,
                                             w3)))))))"



text \<open>The fallback of lines 328-353.\<close>

definition fallback_dimensions :: "ResearchDimension list" where
  "fallback_dimensions = [
     \<lparr>dim_id = ''dimension_1'',
      dim_name = JStr ''Core Analysis'',
      dim_description = JStr ''Primary research focus area'',
      evaluationCriteria = JArr [JStr ''Relevance'', JStr ''Depth'', JStr ''Evidence quality''],
      dataPoints = JArr [JStr ''Key findings'', JStr ''Supporting data'', JStr ''Examples''],
      weight = Some (0.4)\<rparr>,
     \<lparr>dim_id = ''dimension_2'',
      dim_name = JStr ''Context & Background'',
      dim_description = JStr ''Contextual information and background'',
      evaluationCriteria = JArr [JStr ''Comprehensiveness'', JStr ''Relevance'', JStr ''Currency''],
      dataPoints = JArr [JStr ''Historical context'', JStr ''Current state'', JStr ''Related factors''],
      weight = Some (0.3)\<rparr>,
     \<lparr>dim_id = ''dimension_3'',
      dim_name = JStr ''Implications & Applications'',
      dim_description = JStr ''Practical implications and applications'',
      evaluationCriteria = JArr [JStr ''Practicality'', JStr ''Impact'', JStr ''Feasibility''],
      dataPoints = JArr [JStr ''Use cases'', JStr ''Benefits'', JStr ''Challenges'', JStr ''Recommendations''],
      weight = Some (0.3)\<rparr>]"



text \<open>The quality checks of lines 249-265 for a session without template.\<close>

definition default_quality_checks :: "QualityCheckConfig list" where
  "default_quality_checks = [
     \<lparr>qc_type = ''completeness'',
      criteria = [''All dimensions covered'', ''Sufficient depth'', ''Key questions answered''],
      threshold = 0.8\<rparr>,
     \<lparr>qc_type = ''consistency'',
      criteria = [''Internal consistency'', ''Source agreement'', ''Logic validity''],
      threshold = 0.85\<rparr>,
     \<lparr>qc_type = ''bias'',
      criteria = [''Source diversity'', ''Perspective balance'', ''Confirmation bias check''],
      threshold = 0.75\<rparr>]"



text \<open>The configuration that lines 267-279 build, with the defaults for falsy fields.\<close>

definition plan_config ::
  "snapshot \<Rightarrow> ResearchDimension list \<Rightarrow> QualityCheckConfig list \<Rightarrow> string \<Rightarrow> ResearchConfig" where
  "plan_config sn dims checks uuid =
     \<lparr>topic = topic sn,
      cfg_context =
        \<lparr>domain = js_or (domain (cfg_context sn)) (JStr ''custom''),
         audience = js_or (audience (cfg_context sn)) (JArr [JStr ''general'']),
         perspective = js_or (perspective (cfg_context sn)) (JStr ''balanced''),
         constraints = constraints (cfg_context sn)\<rparr>,
      dimensions = dims,
      outputFormat = js_or (outputFormat sn) (JStr ''synthesis''),
      qualityChecks = checks,
      cfg_id = uuid\<rparr>"


definition getSession :: "string \<Rightarrow> ConfigurationWizard \<Rightarrow> ConversationState option" where
  "getSession sid wz = conversations wz sid"


section \<open>\<open>flexible-research-agent.ts\<close>\<close>

text \<open>
  The state of a \<open>FlexibleResearchAgent\<close> is its rate limiter, which the constructor
  builds for 10 requests in 60000 ms.
\<close>

definition FlexibleResearchAgent_new :: RateLimiter where
  "FlexibleResearchAgent_new = RateLimiter_new 10 60000"

text \<open>\<open>{...v}\<close>: the own enumerable properties of \<open>v\<close>, none for \<open>undefined\<close>.\<close>

fun spread :: "json option \<Rightarrow> (string \<times> json) list" where
  "spread (Some (JObj kvs)) = kvs"
| "spread (Some (JArr xs)) = zip (map show_nat [0..<length xs]) xs"
| "spread (Some (JStr s)) = zip (map show_nat [0..<length s]) (map (\<lambda>c. JStr [c]) s)"
| "spread _ = []"

text \<open>
  The confidence of a parsed structure that states none (line 153) and the confidence
  of the fallback structure (line 170).
\<close>

definition default_confidence :: real where
  "default_confidence = 0.7"

definition fallback_confidence :: real where
  "fallback_confidence = 0.6"

text \<open>The fallback structure of lines 163-176.\<close>

definition fallback_results :: "env \<Rightarrow> string \<Rightarrow> ResearchDimension \<Rightarrow> world \<Rightarrow> DimensionResults" where
  "fallback_results e responseText dm w =
     \<lparr>dimensionId = dim_id dm,
      findings = JObj [(''raw'', JStr responseText),
                       (''summary'', JStr (take 500 responseText @ ''...''))],
      evidence = JArr [],
      confidence = JNum fallback_confidence,
      sources = JArr [],
      metadata = [(''parseError'', JBool True),
                  (''timestamp'', JStr (toISOString e (clock w)))]\<rparr>"

text \<open>
  The \<open>try\<close> of lines 142-177: the text of the structuring response, \<open>JSON.parse\<close> and
  the structure built from the parsed value; anything thrown gives the fallback.
\<close>

definition structure_results :: "env \<Rightarrow> completion \<Rightarrow> string \<Rightarrow> ResearchDimension \<Rightarrow> world \<Rightarrow> DimensionResults" where
  "structure_results e structuredCompletion responseText dm w =
     (case first_text_or ''{}'' structuredCompletion of
        Inl err \<Rightarrow> fallback_results e responseText dm w
      | Inr txt \<Rightarrow>
          (case JSON_parse e txt of
             None \<Rightarrow> fallback_results e responseText dm w
           | Some structured \<Rightarrow>
              (case get_prop structured ''findings'' of
                 Inl err \<Rightarrow> fallback_results e responseText dm w
               | Inr fi \<Rightarrow>
              (case get_prop structured ''evidence'' of
                 Inl err \<Rightarrow> fallback_results e responseText dm w
               | Inr ev \<Rightarrow>
              (case get_prop structured ''confidence'' of
                 Inl err \<Rightarrow> fallback_results e responseText dm w
               | Inr co \<Rightarrow>
              (case get_prop structured ''sources'' of
                 Inl err \<Rightarrow> fallback_results e responseText dm w
               | Inr so \<Rightarrow>
              (case get_prop structured ''metadata'' of
                 Inl err \<Rightarrow> fallback_results e responseText dm w
               | Inr me \<Rightarrow>
                   \<lparr>dimensionId = dim_id dm,
                    findings = js_or_opt fi (JObj [(''raw'', JStr responseText)]),
                    evidence = js_or_opt ev (JArr []),
                    confidence = js_or_opt co (JNum default_confidence),
                    sources = js_or_opt so (JArr []),
                    metadata = spread me @
                      [(''researchDepth'', JStr ''comprehensive''),
                       (''timestamp'', JStr (toISOString e (clock w)))]\<rparr>)))))))"

definition parseResearchResults ::
  "env \<Rightarrow> string \<Rightarrow> ResearchDimension \<Rightarrow> ResearchConfig \<Rightarrow> RateLimiter \<Rightarrow> world \<Rightarrow>
     ((js_error + DimensionResults) \<times> RateLimiter \<times> world) option" where
  "parseResearchResults e responseText dm config rl w =
     (case waitIfNeeded e rl w of
        None \<Rightarrow> None
      | Some (rl1, w1) \<Rightarrow>
          (case call_service e (StructuringReq responseText dm) w1 of
             (Inl err, w2) \<Rightarrow> Some (Inl err, rl1, w2)
           | (Inr structuredCompletion, w2) \<Rightarrow>
               Some (Inr (structure_results e structuredCompletion responseText dm w2), rl1, w2)))"

definition performResearch ::
  "env \<Rightarrow> FlexibleSubAgent \<Rightarrow> ResearchConfig \<Rightarrow> depth \<Rightarrow> bool \<Rightarrow> RateLimiter \<Rightarrow> world \<Rightarrow>
     ((js_error + DimensionResults) \<times> RateLimiter \<times> world) option" where
  "performResearch e agent config dp includeSources rl w =
     (case generateSystemPrompt e config (dimension agent) of
        Inl err \<Rightarrow> Some (Inl err, rl, w)
      | Inr systemPrompt \<Rightarrow>
     (case generateResearchPrompt e config (dimension agent) dp includeSources of
        Inl err \<Rightarrow> Some (Inl err, rl, w)
      | Inr userPrompt \<Rightarrow>
     (case waitIfNeeded e rl w of
        None \<Rightarrow> None
      | Some (rl1, w1) \<Rightarrow>
          (case call_service e (ResearchReq (agent_id agent) systemPrompt userPrompt) w1 of
             (Inl err, w2) \<Rightarrow> Some (Inl err, rl1, w2)
           | (Inr completion, w2) \<Rightarrow>
               (case first_text_or [] completion of
                  Inl err \<Rightarrow> Some (Inl err, rl1, w2)
                | Inr responseText \<Rightarrow>
                    parseResearchResults e responseText (dimension agent) config rl1 w2)))))"

section \<open>\<open>flexible-research-manager.ts\<close>\<close>

text \<open>
  The body that both modes run for one unit (lines 188-200 and 216-228): whatever
  \<open>performResearch\<close> throws is caught and the unit is marked \<open>failed\<close>.
\<close>

definition run_agent ::
  "env \<Rightarrow> ResearchConfig \<Rightarrow> FlexibleSubAgent \<Rightarrow> RateLimiter \<Rightarrow> world \<Rightarrow>
     (FlexibleSubAgent \<times> RateLimiter \<times> world) option" where
  "run_agent e config agent rl w =
     (let agent1 = agent\<lparr>agent_status := running\<rparr> in
      case performResearch e agent1 config comprehensive True rl w of
        None \<Rightarrow> None
      | Some (Inr res, rl1, w1) \<Rightarrow>
          Some (agent1\<lparr>results := Some res, agent_status := agent_completed\<rparr>, rl1, w1)
      | Some (Inl err, rl1, w1) \<Rightarrow> Some (agent1\<lparr>agent_status := failed\<rparr>, rl1, w1))"

text \<open>
  The units of a list, one after the other. This is the loop of
  \<open>runSequentialResearch\<close>; for the units of one slice, which \<open>Promise.all\<close> runs
  interleaved, it is the schedule that takes them in order (the units share nothing but
  the rate limiter).
\<close>

fun run_agents ::
  "env \<Rightarrow> ResearchConfig \<Rightarrow> FlexibleSubAgent list \<Rightarrow> RateLimiter \<Rightarrow> world \<Rightarrow>
     (FlexibleSubAgent list \<times> RateLimiter \<times> world) option" where
  "run_agents e config [] rl w = Some ([], rl, w)"
| "run_agents e config (agent # rest) rl w =
     (case run_agent e config agent rl w of
        None \<Rightarrow> None
      | Some (agent', rl1, w1) \<Rightarrow>
          (case run_agents e config rest rl1 w1 of
             None \<Rightarrow> None
           | Some (rest', rl2, w2) \<Rightarrow> Some (agent' # rest', rl2, w2)))"

definition runSequentialResearch ::
  "env \<Rightarrow> ResearchConfig \<Rightarrow> FlexibleSubAgent list \<Rightarrow> RateLimiter \<Rightarrow> world \<Rightarrow>
     (FlexibleSubAgent list \<times> RateLimiter \<times> world) option" where
  "runSequentialResearch e config subAgents rl w = run_agents e config subAgents rl w"

text \<open>
  \<open>xs.slice(start, fin)\<close> for integers: a negative index counts from the end, and both
  are clamped to the array.
\<close>

definition slice_index :: "nat \<Rightarrow> int \<Rightarrow> nat" where
  "slice_index len k = (if k < 0 then nat (max (int len + k) 0) else nat (min k (int len)))"

definition js_slice :: "'a list \<Rightarrow> int \<Rightarrow> int \<Rightarrow> 'a list" where
  "js_slice xs start fin =
     (let s = slice_index (length xs) start; t = slice_index (length xs) fin
      in take (t - s) (drop s xs))"

text \<open>
  The loop of \<open>runParallelResearch\<close> (lines 183-208) from index \<open>i\<close> on. The units of a
  slice are objects of the array, so what they become is written back at their
  positions. \<open>formed\<close> collects the slices in the order the loop forms them.
\<close>

partial_function (option) parallel_loop ::
  "env \<Rightarrow> ResearchConfig \<Rightarrow> int \<Rightarrow> int \<Rightarrow> FlexibleSubAgent list \<Rightarrow> FlexibleSubAgent list list \<Rightarrow>
     RateLimiter \<Rightarrow> world \<Rightarrow>
     (FlexibleSubAgent list \<times> FlexibleSubAgent list list \<times> RateLimiter \<times> world) option" where
  "parallel_loop e config maxConcurrent i subAgents formed rl w =
     (if i < int (length subAgents) then
        (let s = slice_index (length subAgents) i;
             batch = js_slice subAgents i (i + maxConcurrent)
         in case run_agents e config batch rl w of
              None \<Rightarrow> None
            | Some (batch', rl1, w1) \<Rightarrow>
                parallel_loop e config maxConcurrent (i + maxConcurrent)
                  (take s subAgents @ batch' @ drop (s + length batch') subAgents)
                  (formed @ [batch]) rl1
                  (if i + maxConcurrent < int (length subAgents)
                   then sleep e (Some 2000) w1 else w1))
      else Some (subAgents, formed, rl, w))"

text \<open>\<open>maxConcurrent\<close> is 5 when the caller passes none.\<close>

definition runParallelResearch ::
  "env \<Rightarrow> ResearchConfig \<Rightarrow> int option \<Rightarrow> FlexibleSubAgent list \<Rightarrow> RateLimiter \<Rightarrow> world \<Rightarrow>
     (FlexibleSubAgent list \<times> FlexibleSubAgent list list \<times> RateLimiter \<times> world) option" where
  "runParallelResearch e config maxAgents subAgents rl w =
     parallel_loop e config (case maxAgents of None \<Rightarrow> 5 | Some m \<Rightarrow> m) 0 subAgents [] rl w"


section \<open>Reading the outcome of an operation\<close>

text \<open>What an operation returned, what it threw, and the state it left.\<close>

fun returned :: "((js_error + 'a) \<times> 's \<times> world) option \<Rightarrow> 'a option" where
  "returned (Some (Inr r, s, w)) = Some r"
| "returned _ = None"


fun state_after :: "((js_error + 'a) \<times> 's \<times> world) option \<Rightarrow> 's option" where
  "state_after (Some (r, s, w)) = Some s"
| "state_after None = None"

text \<open>The snapshot of a session of a wizard.\<close>

definition snapshot_of :: "string \<Rightarrow> ConfigurationWizard \<Rightarrow> snapshot option" where
  "snapshot_of sid wz = map_option extractedConfig (getSession sid wz)"

section \<open>Reference definitions\<close>

text \<open>
  What lines 193-207 make of a snapshot, given the parsed extraction: \<open>domain\<close>,
  \<open>perspective\<close>, \<open>outputFormat\<close> and \<open>constraints\<close> take the value of the extraction
  where it is truthy, \<open>audience\<close> where it has a truthy \<open>length\<close>; nothing else changes.
\<close>

definition merged :: "json \<Rightarrow> snapshot \<Rightarrow> snapshot" where
  "merged ex sn =
     sn\<lparr>cfg_context := \<lparr>
          domain = js_or_opt (get_prop_opt (Some ex) ''domain'') (domain (cfg_context sn)),
          audience = (case get_prop_opt (Some ex) ''audience'' of
                        None \<Rightarrow> audience (cfg_context sn)
                      | Some v \<Rightarrow> if truthy_opt (get_prop_opt (Some v) ''length'') then v
                                  else audience (cfg_context sn)),
          perspective = js_or_opt (get_prop_opt (Some ex) ''perspective'') (perspective (cfg_context sn)),
          constraints = (case get_prop_opt (Some ex) ''constraints'' of
                        None \<Rightarrow> constraints (cfg_context sn)
                      | Some v \<Rightarrow> if truthy v then Some v else constraints (cfg_context sn))\<rparr>,
        outputFormat := js_or_opt (get_prop_opt (Some ex) ''outputFormat'') (outputFormat sn)\<rparr>"

text \<open>
  How a unit ends and how many calls to the completion service it makes, read off the
  answers of the service: a unit fails before its first call when a prompt cannot be
  built, after one call when the research call fails or has no content, after two when
  the structuring call fails.
\<close>

definition unit_outcome :: "env \<Rightarrow> ResearchConfig \<Rightarrow> FlexibleSubAgent \<Rightarrow> agent_status \<times> nat" where
  "unit_outcome e config agent =
     (case generateSystemPrompt e config (dimension agent) of
        Inl err \<Rightarrow> (failed, 0)
      | Inr systemPrompt \<Rightarrow>
     (case generateResearchPrompt e config (dimension agent) comprehensive True of
        Inl err \<Rightarrow> (failed, 0)
      | Inr userPrompt \<Rightarrow>
     (case complete e (ResearchReq (agent_id agent) systemPrompt userPrompt) of
        Inl err \<Rightarrow> (failed, 1)
      | Inr completion \<Rightarrow>
     (case first_text_or [] completion of
        Inl err \<Rightarrow> (failed, 1)
      | Inr responseText \<Rightarrow>
     (case complete e (StructuringReq responseText (dimension agent)) of
        Inl err \<Rightarrow> (failed, 2)
      | Inr structuredCompletion \<Rightarrow> (agent_completed, 2))))))"

text \<open>
  The partition the specification asks of the concurrent mode: consecutive slices of
  \<open>m\<close> units, the last one with what is left.
\<close>

function consecutive_slices :: "nat \<Rightarrow> 'a list \<Rightarrow> 'a list list" where
  "consecutive_slices m xs =
     (if m = 0 \<or> xs = [] then [] else take m xs # consecutive_slices m (drop m xs))"
  by pat_completeness auto
termination
  by (relation "measure (\<lambda>(m, xs). length xs)") auto

declare consecutive_slices.simps [simp del]

section \<open>A concrete environment and a concrete session\<close>

text \<open>
  \<open>JSON.parse\<close> on the texts it is applied to below: the two JSON objects, \<open>{}\<close> and
  \<open>[]\<close> parse to their values, and the prose answers, on which \<open>JSON.parse\<close> throws,
  have none.
\<close>

definition demo_parse :: "string \<Rightarrow> json option" where
  "demo_parse s =
     (if s = ''{}'' then Some (JObj [])
      else if s = ''[]'' then Some (JArr [])
      else if s = ''{\"audience\": [\"executives\"], \"isComplete\": false}''
        then Some (JObj [(''audience'', JArr [JStr ''executives'']), (''isComplete'', JBool False)])
      else if s = ''{\"dimensions\": [\"cost\"], \"perspective\": \"\"}''
        then Some (JObj [(''dimensions'', JArr [JStr ''cost'']), (''perspective'', JStr [])])
      else None)"

text \<open>
  A service that answers the extraction call with the text \<open>extraction\<close> and the
  structuring call with \<open>structuring\<close>, fails the call for custom dimensions and the
  research call of the unit \<open>unit-1\<close>, and answers every other call with a fixed text.
\<close>

fun demo_complete :: "string \<Rightarrow> string \<Rightarrow> request \<Rightarrow> js_error + completion" where
  "demo_complete extraction structuring (ClarifyReq d h) = Inr [TextBlock ''Who is the audience?'']"
| "demo_complete extraction structuring (ContinueReq sn h) = Inr [TextBlock ''Noted.'']"
| "demo_complete extraction structuring (ExtractReq h) = Inr [TextBlock extraction]"
| "demo_complete extraction structuring (DimensionsReq h) = Inl (ApiFailure other ''overloaded'')"
| "demo_complete extraction structuring (ResearchReq a sp up) =
     (if a = ''unit-1'' then Inl (ApiFailure other ''overloaded'')
      else Inr [TextBlock ''Recycling capacity is growing.''])"
| "demo_complete extraction structuring (StructuringReq t dm) = Inr [TextBlock structuring]"

definition demo_env :: "string \<Rightarrow> string \<Rightarrow> env" where
  "demo_env extraction structuring =
     \<lparr>complete = demo_complete extraction structuring,
      latency = (\<lambda>r. 800),
      late = (\<lambda>t. 3),
      JSON_parse = demo_parse,
      randomUUID = (\<lambda>n. ''id-'' @ show_nat n),
      toISOString = (\<lambda>t. show_nat (nat t)),
      generateSystemPrompt = (\<lambda>config dm. Inr ''system''),
      generateResearchPrompt = (\<lambda>config dm dp includeSources. Inr ''research'')\<rparr>"

text \<open>A session without template in which an earlier turn has set the perspective.\<close>

definition demo_session :: ConversationState where
  "demo_session =
     \<lparr>sessionId = ''id-0'',
      turns = [\<lparr>role = user, content = ''remote work culture'', timestamp = 0\<rparr>,
               \<lparr>role = assistant, content = ''Who is the audience?'', timestamp = 800\<rparr>],
      extractedConfig =
        \<lparr>topic = ''remote work culture'',
         cfg_context = \<lparr>domain = JStr ''custom'', audience = JArr [],
                        perspective = JStr ''business'', constraints = None\<rparr>,
         dimensions = [],
         outputFormat = JStr ''synthesis'',
         qualityChecks = []\<rparr>,
      clarificationNeeded = [],
      suggestedTemplate = None,
      status = active\<rparr>"

text \<open>
  A session with the hint \<open>market_research\<close> whose snapshot still has that domain and the
  fields \<open>startConfiguration\<close> gave it.
\<close>

definition demo_market_session :: ConversationState where
  "demo_market_session =
     \<lparr>sessionId = ''id-0'',
      turns = [\<lparr>role = user, content = ''market for solar panels'', timestamp = 0\<rparr>,
               \<lparr>role = assistant, content = ''Who is the audience?'', timestamp = 800\<rparr>],
      extractedConfig =
        \<lparr>topic = ''market for solar panels'',
         cfg_context = \<lparr>domain = JStr ''market_research'', audience = JArr [],
                        perspective = JStr [], constraints = None\<rparr>,
         dimensions = [],
         outputFormat = JStr ''synthesis'',
         qualityChecks = []\<rparr>,
      clarificationNeeded = [],
      suggestedTemplate = Some ''market_research'',
      status = active\<rparr>"

definition demo_wizard :: "ConversationState \<Rightarrow> ConfigurationWizard" where
  "demo_wizard state =
     \<lparr>conversations = [''id-0'' \<mapsto> state], rateLimiter = RateLimiter_new 10 60000\<rparr>"

text \<open>A configuration and three units, one for each fallback dimension.\<close>

definition demo_config :: ResearchConfig where
  "demo_config =
     plan_config (extractedConfig demo_market_session) fallback_dimensions default_quality_checks
       ''id-1''"

definition demo_unit :: "string \<Rightarrow> ResearchDimension \<Rightarrow> FlexibleSubAgent" where
  "demo_unit uid dm =
     \<lparr>agent_id = uid, parentTaskId = ''id-2'', dimension = dm, agent_status = pending,
      results = None\<rparr>"

definition demo_units :: "FlexibleSubAgent list" where
  "demo_units = map2 demo_unit [''unit-0'', ''unit-1'', ''unit-2''] fallback_dimensions"

definition demo_world :: world where
  "demo_world = \<lparr>clock = 1000, trace = [], drawn = 1\<rparr>"


section \<open>The rate limiter\<close>

lemma purge_consts [simp]:
  "maxRequests (purge now rl) = maxRequests rl" "windowMs (purge now rl) = windowMs rl"
  by (simp_all add: purge_def)

lemma purge_times:
  "requestTimes (purge now rl) = filter (\<lambda>t. now - t < windowMs rl) (requestTimes rl)"
  by (simp add: purge_def)

lemma calls_sleep [simp]: "calls (sleep e d w) = calls w"
  by (simp add: calls_def sleep_def)

lemma drawn_sleep [simp]: "drawn (sleep e d w) = drawn w"
  by (simp add: sleep_def)

lemma clock_sleep: "clock w + ms \<le> clock (sleep e (Some ms) w)"
  by (simp add: sleep_def)

lemma clock_sleep_mono: "clock w \<le> clock (sleep e d w)"
  by (cases d) (simp_all add: sleep_def)

text \<open>
  A limiter that allows at least one request lets every caller through: each wait
  outlasts the oldest request of the window, so the window shrinks with every pass.
  The limiter keeps its configuration, and the wait issues no call to the service.
\<close>

lemma waitIfNeeded_returns_aux:
  assumes "1 \<le> maxRequests rl"
  shows "length (requestTimes (purge (clock w) rl)) = n \<Longrightarrow>
         \<exists>rl' w'. waitIfNeeded e rl w = Some (rl', w') \<and> maxRequests rl' = maxRequests rl \<and>
            windowMs rl' = windowMs rl \<and> calls w' = calls w \<and> drawn w' = drawn w \<and>
            clock w \<le> clock w'"
  using assms
proof (induction n arbitrary: rl w rule: less_induct)
  case (less n)
  let ?rl1 = "purge (clock w) rl"
  show ?case
  proof (cases "int (length (requestTimes ?rl1)) \<ge> maxRequests rl")
    case False
    then show ?thesis
      by (subst waitIfNeeded.simps) (simp add: pass_def Let_def)
  next
    case True
    then obtain oldest rest where rt: "requestTimes ?rl1 = oldest # rest"
      using less.prems(2) by (cases "requestTimes ?rl1") auto
    let ?wt = "windowMs rl - (clock w - oldest) + 100"
    let ?w1 = "sleep e (Some ?wt) w"
    have step: "waitIfNeeded e rl w = waitIfNeeded e ?rl1 ?w1"
      using True rt by (subst waitIfNeeded.simps) (simp add: pass_def Let_def)
    have "clock w + ?wt \<le> clock ?w1" by (rule clock_sleep)
    then have gone: "\<not> clock ?w1 - oldest < windowMs rl" by linarith
    have "oldest \<in> set (requestTimes ?rl1)" using rt by simp
    then have "length (filter (\<lambda>t. clock ?w1 - t < windowMs ?rl1) (requestTimes ?rl1))
                 < length (requestTimes ?rl1)"
      using gone by (intro length_filter_less[of oldest]) simp_all
    then have "length (requestTimes (purge (clock ?w1) ?rl1)) < length (requestTimes ?rl1)"
      by (subst purge_times)
    then have lt: "length (requestTimes (purge (clock ?w1) ?rl1)) < n" using less.prems(1) by simp
    have N1: "1 \<le> maxRequests ?rl1" using less.prems(2) by simp
    from less.IH[OF lt refl N1]
    obtain rl' w' where r: "waitIfNeeded e ?rl1 ?w1 = Some (rl', w')"
      "maxRequests rl' = maxRequests ?rl1" "windowMs rl' = windowMs ?rl1"
      "calls w' = calls ?w1" "drawn w' = drawn ?w1" "clock ?w1 \<le> clock w'" by blast
    have "clock w \<le> clock ?w1" by (rule clock_sleep_mono)
    then show ?thesis using step r by simp
  qed
qed

lemma waitIfNeeded_returns:
  assumes "1 \<le> maxRequests rl"
  shows "\<exists>rl' w'. waitIfNeeded e rl w = Some (rl', w') \<and> maxRequests rl' = maxRequests rl \<and>
            windowMs rl' = windowMs rl \<and> calls w' = calls w \<and> drawn w' = drawn w \<and>
            clock w \<le> clock w'"
  using waitIfNeeded_returns_aux[OF assms refl] .

text \<open>
  The invariant of a run of the limiter, after a step at time \<open>lst\<close>: the requests the
  limiter still holds and the admissions ever made agree on what is younger than the
  window, no admission is later than \<open>lst\<close>, and no interval shorter than the window
  holds more than \<open>maxR\<close> admissions.
\<close>

lemma filter_later:
  assumes "lst \<le> now"
  shows "filter (\<lambda>t. now - t < (win::int)) (filter (\<lambda>a. lst - a < win) adm)
           = filter (\<lambda>a. now - a < win) adm"
  using assms by (induction adm) auto

lemma limiter_inv_step:
  assumes mx: "maxRequests rl = maxR" and wn: "windowMs rl = win"
    and rt: "filter (\<lambda>a. lst - a < win) (requestTimes rl) = filter (\<lambda>a. lst - a < win) adm"
    and le: "\<And>a. a \<in> set adm \<Longrightarrow> a \<le> lst"
    and bound: "\<And>lo hi. hi - lo < win \<Longrightarrow>
                  int (length (filter (\<lambda>a. lo \<le> a \<and> a \<le> hi) adm)) \<le> maxR"
    and later: "lst \<le> now"
    and st: "limiter_step (rl, adm) (now, opn) = (rl', adm')"
  shows "maxRequests rl' = maxR \<and> windowMs rl' = win \<and>
         filter (\<lambda>a. now - a < win) (requestTimes rl') = filter (\<lambda>a. now - a < win) adm' \<and>
         (\<forall>a\<in>set adm'. a \<le> now) \<and>
         (\<forall>lo hi. hi - lo < win \<longrightarrow>
            int (length (filter (\<lambda>a. lo \<le> a \<and> a \<le> hi) adm')) \<le> maxR)"
proof -
  have pr: "requestTimes (purge now rl) = filter (\<lambda>a. now - a < win) adm"
    using rt wn filter_later[OF later, of win "requestTimes rl"] filter_later[OF later, of win adm]
    by (simp add: purge_def)
  have le': "\<forall>a\<in>set adm. a \<le> now" using le later by fastforce
  show ?thesis
  proof (cases opn)
    case RemainingOp
    then show ?thesis using st mx wn pr le' bound
      by (auto simp: getRequestsRemaining_def Let_def)
  next
    case PassOp
    show ?thesis
    proof (cases "int (length (requestTimes (purge now rl))) \<ge> maxR")
      case True
      then show ?thesis using st mx wn pr le' bound PassOp
        by (auto simp: pass_def Let_def)
    next
      case False
      have cnt: "int (length (filter (\<lambda>a. now - a < win) adm)) < maxR" using False pr by simp
      have bound': "int (length (filter (\<lambda>a. lo \<le> a \<and> a \<le> hi) (adm @ [now]))) \<le> maxR"
        if h: "hi - lo < win" for lo hi
      proof (cases "lo \<le> now \<and> now \<le> hi")
        case False
        then show ?thesis using bound[OF h] by auto
      next
        case True
        have imp: "\<And>a. lo \<le> a \<and> a \<le> hi \<Longrightarrow> now - a < win" using True h by linarith
        have "filter (\<lambda>a. lo \<le> a \<and> a \<le> hi) adm
                = filter (\<lambda>a. lo \<le> a \<and> a \<le> hi) (filter (\<lambda>a. now - a < win) adm)"
          using imp by (induction adm) auto
        then have "length (filter (\<lambda>a. lo \<le> a \<and> a \<le> hi) adm)
                     \<le> length (filter (\<lambda>a. now - a < win) adm)"
          by (metis length_filter_le)
        then show ?thesis using cnt True by simp
      qed
      have "rl' = (purge now rl)\<lparr>requestTimes := requestTimes (purge now rl) @ [now]\<rparr>"
        and adm': "adm' = adm @ [now]"
        using st PassOp False mx by (auto simp: pass_def Let_def)
      then show ?thesis using mx wn pr le' bound' by auto
    qed
  qed
qed

lemma limiter_inv_run:
  assumes "maxRequests rl = maxR" and "windowMs rl = win"
    and "filter (\<lambda>a. lst - a < win) (requestTimes rl) = filter (\<lambda>a. lst - a < win) adm"
    and "\<forall>a\<in>set adm. a \<le> lst"
    and "\<forall>lo hi. hi - lo < win \<longrightarrow>
           int (length (filter (\<lambda>a. lo \<le> a \<and> a \<le> hi) adm)) \<le> maxR"
    and "sorted (map fst steps)" and "\<forall>x\<in>set steps. lst \<le> fst x"
  shows "\<forall>lo hi. hi - lo < win \<longrightarrow>
           int (length (filter (\<lambda>a. lo \<le> a \<and> a \<le> hi)
                  (snd (foldl limiter_step (rl, adm) steps)))) \<le> maxR"
  using assms
proof (induction steps arbitrary: rl adm lst)
  case Nil
  then show ?case by simp
next
  case (Cons x xs)
  obtain now opn where x: "x = (now, opn)" by (cases x)
  obtain rl' adm' where st: "limiter_step (rl, adm) (now, opn) = (rl', adm')"
    by (cases "limiter_step (rl, adm) (now, opn)")
  have later: "lst \<le> now" using Cons.prems(7) x by simp
  have inv: "maxRequests rl' = maxR \<and> windowMs rl' = win \<and>
         filter (\<lambda>a. now - a < win) (requestTimes rl') = filter (\<lambda>a. now - a < win) adm' \<and>
         (\<forall>a\<in>set adm'. a \<le> now) \<and>
         (\<forall>lo hi. hi - lo < win \<longrightarrow>
            int (length (filter (\<lambda>a. lo \<le> a \<and> a \<le> hi) adm')) \<le> maxR)"
    using Cons.prems(4,5) by (intro limiter_inv_step[OF Cons.prems(1,2,3) _ _ later st]) auto
  have srt: "sorted (map fst xs)" using Cons.prems(6) by simp
  have ge: "\<forall>y\<in>set xs. now \<le> fst y" using Cons.prems(6) x by auto
  have "\<forall>lo hi. hi - lo < win \<longrightarrow>
           int (length (filter (\<lambda>a. lo \<le> a \<and> a \<le> hi)
                  (snd (foldl limiter_step (rl', adm') xs)))) \<le> maxR"
    using inv srt ge by (intro Cons.IH[of rl' now adm']) auto
  then show ?case using x st by simp
qed

lemma window_bound:
  assumes srt: "sorted (map fst steps)" and nn: "0 \<le> maxR" and short: "hi - lo < win"
  shows "int (length (filter (\<lambda>a. lo \<le> a \<and> a \<le> hi) (snd (run_limiter maxR win steps)))) \<le> maxR"
proof (cases steps)
  case Nil
  then show ?thesis using nn by (simp add: run_limiter_def)
next
  case (Cons x xs)
  have "\<forall>y\<in>set steps. fst x \<le> fst y" using srt Cons by auto
  then have "\<forall>lo hi. hi - lo < win \<longrightarrow>
           int (length (filter (\<lambda>a. lo \<le> a \<and> a \<le> hi)
                  (snd (foldl limiter_step (RateLimiter_new maxR win, []) steps)))) \<le> maxR"
    using srt nn
    by (intro limiter_inv_run[of _ _ _ "fst x"]) (auto simp: RateLimiter_new_def)
  then show ?thesis using short by (simp add: run_limiter_def)
qed

text \<open>
  C1. Whatever passes of \<open>waitIfNeeded\<close> and calls of \<open>getRequestsRemaining\<close> reach one
  limiter for \<open>maxR\<close> requests in \<open>win\<close> milliseconds, in the order of a clock that does
  not run backwards: after any number \<open>n\<close> of them, the admissions recorded so far
  with a time in the trailing interval \<open>(t - win, t]\<close> are at most \<open>maxR\<close>, for every
  \<open>t\<close>. An admission is counted at the time the limiter records it.
\<close>

theorem admissions_within_limit:
  assumes "sorted (map fst steps)" and "0 \<le> maxR"
  shows "int (length (filter (\<lambda>a. t - win < a \<and> a \<le> t)
                (snd (run_limiter maxR win (take n steps))))) \<le> maxR"
proof -
  have srt: "sorted (map fst (take n steps))"
    using assms(1) by (simp add: take_map[symmetric] sorted_wrt_take)
  have "(\<lambda>a. t - win < a \<and> a \<le> t) = (\<lambda>a. t - win + 1 \<le> a \<and> a \<le> t)" by auto
  then show ?thesis
    using window_bound[OF srt assms(2), of t "t - win + 1" win] by simp
qed

theorem admissions_within_limit_witness:
  "sorted (map fst [(0, PassOp), (0, PassOp), (0, PassOp), (500, RemainingOp), (1000::int, PassOp)]) \<and>
   (0::int) \<le> 2 \<and>
   snd (run_limiter 2 1000 (take 5 [(0, PassOp), (0, PassOp), (0, PassOp), (500, RemainingOp), (1000, PassOp)]))
     = [0, 0, 1000] \<and>
   int (length (filter (\<lambda>a. 999 - 1000 < a \<and> a \<le> 999)
          (snd (run_limiter 2 1000
             (take 5 [(0, PassOp), (0, PassOp), (0, PassOp), (500, RemainingOp), (1000, PassOp)]))))) \<le> 2"
  using admissions_within_limit[of "[(0, PassOp), (0, PassOp), (0, PassOp), (500, RemainingOp), (1000, PassOp)]" 2 999 1000 5]
  by (simp add: run_limiter_def pass_def purge_def RateLimiter_new_def Let_def getRequestsRemaining_def)

text \<open>
  C9. A limiter for 2 requests in 1000 ms receives three calls at time 0. The first two
  return at time 0 without a timer. The third sets one timer, for
  \<open>1000 - (0 - 0) + 100 = 1100\<close> ms (window minus age of the oldest request plus the
  buffer), and returns when it fires, at 1100 ms plus the timer's overshoot, which is
  not before 1000 ms; it then records its own admission.
\<close>

theorem three_calls_at_time_zero:
  "waitIfNeeded e (RateLimiter_new 2 1000) \<lparr>clock = 0, trace = [], drawn = 0\<rparr>
     = Some (\<lparr>requestTimes = [0], maxRequests = 2, windowMs = 1000\<rparr>,
             \<lparr>clock = 0, trace = [], drawn = 0\<rparr>) \<and>
   waitIfNeeded e \<lparr>requestTimes = [0], maxRequests = 2, windowMs = 1000\<rparr>
       \<lparr>clock = 0, trace = [], drawn = 0\<rparr>
     = Some (\<lparr>requestTimes = [0, 0], maxRequests = 2, windowMs = 1000\<rparr>,
             \<lparr>clock = 0, trace = [], drawn = 0\<rparr>) \<and>
   waitIfNeeded e \<lparr>requestTimes = [0, 0], maxRequests = 2, windowMs = 1000\<rparr>
       \<lparr>clock = 0, trace = [], drawn = 0\<rparr>
     = Some (\<lparr>requestTimes = [1100 + int (late e 0)], maxRequests = 2, windowMs = 1000\<rparr>,
             \<lparr>clock = 1100 + int (late e 0), trace = [Sleep (Some (1000 - (0 - 0) + 100))],
              drawn = 0\<rparr>) \<and>
   (1000::int) \<le> 1100 + int (late e 0)"
  apply (intro conjI)
     apply (subst waitIfNeeded.simps, simp add: pass_def purge_def RateLimiter_new_def Let_def)
    apply (subst waitIfNeeded.simps, simp add: pass_def purge_def Let_def)
   apply (subst waitIfNeeded.simps, simp add: pass_def purge_def Let_def sleep_def)
   apply (subst waitIfNeeded.simps, simp add: pass_def purge_def Let_def sleep_def)
  apply simp
  done


section \<open>The domain hint\<close>

lemma suggest_loop_char:
  "(suggest_loop table d best = None \<longrightarrow> best = None \<and> (\<forall>p\<in>set table. score d (snd p) = 0)) \<and>
   (\<forall>dn sc. suggest_loop table d best = Some (dn, sc) \<longrightarrow>
      (best = Some (dn, sc) \<and> (\<forall>p\<in>set table. score d (snd p) \<le> sc)) \<or>
      (\<exists>pre ks post. table = pre @ (dn, ks) # post \<and> score d ks = sc \<and> 0 < sc \<and>
          (\<forall>bd bs. best = Some (bd, bs) \<longrightarrow> bs < sc) \<and>
          (\<forall>p\<in>set pre. score d (snd p) < sc) \<and> (\<forall>p\<in>set post. score d (snd p) \<le> sc)))"
proof (induction table arbitrary: best)
  case Nil
  then show ?case by simp
next
  case (Cons x rest)
  obtain k ks where x: "x = (k, ks)" by (cases x)
  let ?sc = "score d ks"
  let ?taken = "?sc > 0 \<and> (case best of None \<Rightarrow> True | Some (bd, bs) \<Rightarrow> ?sc > bs)"
  show ?case
  proof (cases ?taken)
    case True
    note taken = True
    have eq: "suggest_loop (x # rest) d best = suggest_loop rest d (Some (k, ?sc))"
      using taken x by (simp add: Let_def)
    note IH = Cons.IH[of "Some (k, ?sc)"]
    have above: "\<forall>bd bs. best = Some (bd, bs) \<longrightarrow> bs < ?sc" using taken by auto
    have A: "best = None \<and> (\<forall>p\<in>set (x # rest). score d (snd p) = 0)"
      if "suggest_loop (x # rest) d best = None"
      using that eq IH by simp
    have B: "(best = Some (dn, sc) \<and> (\<forall>p\<in>set (x # rest). score d (snd p) \<le> sc)) \<or>
         (\<exists>pre ks post. x # rest = pre @ (dn, ks) # post \<and> score d ks = sc \<and> 0 < sc \<and>
            (\<forall>bd bs. best = Some (bd, bs) \<longrightarrow> bs < sc) \<and>
            (\<forall>p\<in>set pre. score d (snd p) < sc) \<and> (\<forall>p\<in>set post. score d (snd p) \<le> sc))"
      if r: "suggest_loop (x # rest) d best = Some (dn, sc)" for dn sc
    proof -
      have r': "suggest_loop rest d (Some (k, ?sc)) = Some (dn, sc)" using r eq by simp
      from IH r' consider
        (stay) "k = dn" "?sc = sc" "\<forall>p\<in>set rest. score d (snd p) \<le> sc"
        | (later) pre ks' post where "rest = pre @ (dn, ks') # post" "score d ks' = sc" "0 < sc"
          "?sc < sc" "\<forall>p\<in>set pre. score d (snd p) < sc" "\<forall>p\<in>set post. score d (snd p) \<le> sc"
        by blast
      then show ?thesis
      proof cases
        case stay
        have "x # rest = [] @ (dn, ks) # rest \<and> score d ks = sc \<and> 0 < sc"
          using x taken stay by simp
        moreover have "\<forall>bd bs. best = Some (bd, bs) \<longrightarrow> bs < sc" using above stay by simp
        moreover have "\<forall>p\<in>set []. score d (snd p) < sc" by simp
        ultimately show ?thesis using stay(3) by blast
      next
        case later
        have "x # rest = (x # pre) @ (dn, ks') # post" using later(1) by simp
        moreover have "\<forall>p\<in>set (x # pre). score d (snd p) < sc" using later(4,5) x by simp
        moreover have "\<forall>bd bs. best = Some (bd, bs) \<longrightarrow> bs < sc" using above later(4) by auto
        ultimately show ?thesis using later(2,3,6) by blast
      qed
    qed
    show ?thesis using A B by blast
  next
    case False
    note skipped = False
    have eq: "suggest_loop (x # rest) d best = suggest_loop rest d best"
      using skipped x by (auto simp: Let_def)
    note IH = Cons.IH[of best]
    have A: "best = None \<and> (\<forall>p\<in>set (x # rest). score d (snd p) = 0)"
      if n: "suggest_loop (x # rest) d best = None"
    proof -
      have "best = None \<and> (\<forall>p\<in>set rest. score d (snd p) = 0)" using n eq IH by simp
      then show ?thesis using skipped x by simp
    qed
    have B: "(best = Some (dn, sc) \<and> (\<forall>p\<in>set (x # rest). score d (snd p) \<le> sc)) \<or>
         (\<exists>pre ks post. x # rest = pre @ (dn, ks) # post \<and> score d ks = sc \<and> 0 < sc \<and>
            (\<forall>bd bs. best = Some (bd, bs) \<longrightarrow> bs < sc) \<and>
            (\<forall>p\<in>set pre. score d (snd p) < sc) \<and> (\<forall>p\<in>set post. score d (snd p) \<le> sc))"
      if r: "suggest_loop (x # rest) d best = Some (dn, sc)" for dn sc
    proof -
      have r': "suggest_loop rest d best = Some (dn, sc)" using r eq by simp
      from IH r' consider
        (stay) "best = Some (dn, sc)" "\<forall>p\<in>set rest. score d (snd p) \<le> sc"
        | (later) pre ks' post where "rest = pre @ (dn, ks') # post" "score d ks' = sc" "0 < sc"
          "\<forall>bd bs. best = Some (bd, bs) \<longrightarrow> bs < sc" "\<forall>p\<in>set pre. score d (snd p) < sc"
          "\<forall>p\<in>set post. score d (snd p) \<le> sc"
        by blast
      then show ?thesis
      proof cases
        case stay
        then show ?thesis using skipped x by auto
      next
        case later
        have "x # rest = (x # pre) @ (dn, ks') # post" using later(1) by simp
        moreover have "?sc < sc" using skipped later(3,4) by (cases best) auto
        then have "\<forall>p\<in>set (x # pre). score d (snd p) < sc" using later(5) x by simp
        ultimately show ?thesis using later(2,3,4,6) by blast
      qed
    qed
    show ?thesis using A B by blast
  qed
qed

lemma suggest_none:
  "suggestTemplateWith table description = None \<longleftrightarrow>
     (\<forall>p\<in>set table. score (toLowerCase description) (snd p) = 0)"
proof
  assume "suggestTemplateWith table description = None"
  then show "\<forall>p\<in>set table. score (toLowerCase description) (snd p) = 0"
    using suggest_loop_char[of table "toLowerCase description" None]
    by (simp add: suggestTemplateWith_def)
next
  assume z: "\<forall>p\<in>set table. score (toLowerCase description) (snd p) = 0"
  show "suggestTemplateWith table description = None"
  proof (cases "suggest_loop table (toLowerCase description) None")
    case None
    then show ?thesis by (simp add: suggestTemplateWith_def)
  next
    case (Some r)
    obtain dn sc where "r = (dn, sc)" by (cases r)
    then show ?thesis using suggest_loop_char[of table "toLowerCase description" None] Some z
      by fastforce
  qed
qed

lemma suggest_some:
  assumes "suggestTemplateWith table description = Some dn"
  shows "\<exists>pre ks post. table = pre @ (dn, ks) # post \<and>
           0 < score (toLowerCase description) ks \<and>
           (\<forall>p\<in>set pre. score (toLowerCase description) (snd p) < score (toLowerCase description) ks) \<and>
           (\<forall>p\<in>set post. score (toLowerCase description) (snd p) \<le> score (toLowerCase description) ks)"
proof -
  from assms obtain sc where "suggest_loop table (toLowerCase description) None = Some (dn, sc)"
    by (auto simp: suggestTemplateWith_def)
  then show ?thesis using suggest_loop_char[of table "toLowerCase description" None] by blast
qed


section \<open>The configuration wizard\<close>

lemma get_prop_nonnull: "ex \<noteq> JNull \<Longrightarrow> get_prop ex k = Inr (get_prop_opt (Some ex) k)"
  by (cases ex) simp_all

lemma apply_extraction_null [simp]: "apply_extraction JNull state = (Inl TypeError, state)"
  by (simp add: apply_extraction_def)

lemma apply_extraction_nonnull:
  assumes nn: "ex \<noteq> JNull"
  shows "\<exists>s5. apply_extraction ex state =
            (Inr (js_or_opt (get_prop_opt (Some ex) ''isComplete'') (JBool False)),
             if truthy (js_or_opt (get_prop_opt (Some ex) ''isComplete'') (JBool False))
             then s5\<lparr>status := completed\<rparr> else s5) \<and>
          extractedConfig s5 = merged ex (extractedConfig state) \<and>
          status s5 = status state \<and> sessionId s5 = sessionId state \<and> turns s5 = turns state \<and>
          suggestedTemplate s5 = suggestedTemplate state \<and>
          clarificationNeeded s5 = clarificationNeeded state"
proof -
  define d where "d = get_prop_opt (Some ex) ''domain''"
  define a where "a = get_prop_opt (Some ex) ''audience''"
  define p where "p = get_prop_opt (Some ex) ''perspective''"
  define f where "f = get_prop_opt (Some ex) ''outputFormat''"
  define c where "c = get_prop_opt (Some ex) ''constraints''"
  define s1 where "s1 = (case d of None \<Rightarrow> state | Some v \<Rightarrow> if truthy v then set_domain v state else state)"
  define s2 where "s2 = (case a of None \<Rightarrow> s1
                | Some v \<Rightarrow> if truthy_opt (get_prop_opt a ''length'') then set_audience v s1 else s1)"
  define s3 where "s3 = (case p of None \<Rightarrow> s2 | Some v \<Rightarrow> if truthy v then set_perspective v s2 else s2)"
  define s4 where "s4 = (case f of None \<Rightarrow> s3 | Some v \<Rightarrow> if truthy v then set_outputFormat v s3 else s3)"
  define s5 where "s5 = (case c of None \<Rightarrow> s4 | Some v \<Rightarrow> if truthy v then set_constraints v s4 else s4)"
  have ap: "apply_extraction ex state =
            (Inr (js_or_opt (get_prop_opt (Some ex) ''isComplete'') (JBool False)),
             if truthy (js_or_opt (get_prop_opt (Some ex) ''isComplete'') (JBool False))
             then s5\<lparr>status := completed\<rparr> else s5)"
    unfolding apply_extraction_def get_prop_nonnull[OF nn] s5_def s4_def s3_def s2_def s1_def
      d_def a_def p_def f_def c_def
    by (simp only: sum.case Let_def)
  have e1: "extractedConfig s1 = (extractedConfig state)\<lparr>cfg_context := (cfg_context (extractedConfig state))
              \<lparr>domain := js_or_opt d (domain (cfg_context (extractedConfig state)))\<rparr>\<rparr>"
    and r1: "status s1 = status state" "sessionId s1 = sessionId state" "turns s1 = turns state"
      "suggestedTemplate s1 = suggestedTemplate state" "clarificationNeeded s1 = clarificationNeeded state"
    by (cases d; simp add: s1_def set_domain_def js_or_def)+
  have e2: "extractedConfig s2 = (extractedConfig s1)\<lparr>cfg_context := (cfg_context (extractedConfig s1))
              \<lparr>audience := (case a of None \<Rightarrow> audience (cfg_context (extractedConfig s1))
                      | Some v \<Rightarrow> if truthy_opt (get_prop_opt (Some v) ''length'') then v
                                  else audience (cfg_context (extractedConfig s1)))\<rparr>\<rparr>"
    and r2: "status s2 = status s1" "sessionId s2 = sessionId s1" "turns s2 = turns s1"
      "suggestedTemplate s2 = suggestedTemplate s1" "clarificationNeeded s2 = clarificationNeeded s1"
    by (cases a; simp add: s2_def set_audience_def)+
  have e3: "extractedConfig s3 = (extractedConfig s2)\<lparr>cfg_context := (cfg_context (extractedConfig s2))
              \<lparr>perspective := js_or_opt p (perspective (cfg_context (extractedConfig s2)))\<rparr>\<rparr>"
    and r3: "status s3 = status s2" "sessionId s3 = sessionId s2" "turns s3 = turns s2"
      "suggestedTemplate s3 = suggestedTemplate s2" "clarificationNeeded s3 = clarificationNeeded s2"
    by (cases p; simp add: s3_def set_perspective_def js_or_def)+
  have e4: "extractedConfig s4 = (extractedConfig s3)
              \<lparr>outputFormat := js_or_opt f (outputFormat (extractedConfig s3))\<rparr>"
    and r4: "status s4 = status s3" "sessionId s4 = sessionId s3" "turns s4 = turns s3"
      "suggestedTemplate s4 = suggestedTemplate s3" "clarificationNeeded s4 = clarificationNeeded s3"
    by (cases f; simp add: s4_def set_outputFormat_def js_or_def)+
  have e5: "extractedConfig s5 = (extractedConfig s4)\<lparr>cfg_context := (cfg_context (extractedConfig s4))
              \<lparr>constraints := (case c of None \<Rightarrow> constraints (cfg_context (extractedConfig s4))
                      | Some v \<Rightarrow> if truthy v then Some v
                                  else constraints (cfg_context (extractedConfig s4)))\<rparr>\<rparr>"
    and r5: "status s5 = status s4" "sessionId s5 = sessionId s4" "turns s5 = turns s4"
      "suggestedTemplate s5 = suggestedTemplate s4" "clarificationNeeded s5 = clarificationNeeded s4"
    by (cases c; simp add: s5_def set_constraints_def)+
  have "extractedConfig s5 = merged ex (extractedConfig state)"
    unfolding e5 e4 e3 e2 e1 merged_def d_def[symmetric] a_def[symmetric] p_def[symmetric]
      f_def[symmetric] c_def[symmetric]
    by (simp cong: option.case_cong if_cong)
  then show ?thesis using ap r1 r2 r3 r4 r5 by (intro exI[of _ s5]) simp
qed


lemma calls_call_service [simp]: "calls (snd (call_service e r w)) = Suc (calls w)"
  by (simp add: call_service_def calls_def)

lemma fst_call_service [simp]: "fst (call_service e r w) = complete e r"
  by (simp add: call_service_def)

lemma continueConfiguration_rejects:
  assumes "conversations wz sid = None \<or> (\<exists>state. conversations wz sid = Some state \<and> status state \<noteq> active)"
  shows "continueConfiguration e sid userResponse wz w = Some (Inl (Error ''Invalid or expired session''), wz, w)"
  using assms by (auto simp: continueConfiguration_def)

lemma continueConfiguration_run:
  assumes s: "conversations wz sid = Some state" and act: "status state = active"
    and lim: "1 \<le> maxRequests (rateLimiter wz)"
    and c1: "complete e (ContinueReq (extractedConfig state) (history (turns state) @ [(user, userResponse)])) = Inr c1"
    and tx: "first_text_or [] c1 = Inr response"
    and c2: "complete e (ExtractReq (history (turns state) @ [(user, userResponse)])) = Inr c2"
  shows "\<exists>rl' w' t2 state2.
           state2 = state\<lparr>turns := turns state @
              [\<lparr>role = user, content = userResponse, timestamp = clock w\<rparr>,
               \<lparr>role = assistant, content = response, timestamp = t2\<rparr>]\<rparr> \<and>
           continueConfiguration e sid userResponse wz w =
             Some (Inr \<lparr>cr_response = response,
                        configComplete = fst (extraction_try e c2 state2),
                        cr_extractedConfig = extractedConfig (snd (extraction_try e c2 state2))\<rparr>,
                   \<lparr>conversations = (conversations wz)(sid \<mapsto> snd (extraction_try e c2 state2)),
                    rateLimiter = rl'\<rparr>, w') \<and>
           maxRequests rl' = maxRequests (rateLimiter wz) \<and> windowMs rl' = windowMs (rateLimiter wz) \<and>
           calls w' = calls w + 2 \<and> drawn w' = drawn w"
proof -
  obtain rl' w1 where wt: "waitIfNeeded e (rateLimiter wz) w = Some (rl', w1)"
    and k: "maxRequests rl' = maxRequests (rateLimiter wz)" "windowMs rl' = windowMs (rateLimiter wz)"
      "calls w1 = calls w" "drawn w1 = drawn w"
    using waitIfNeeded_returns[OF lim, of e w] by blast
  define w2 where "w2 = snd (call_service e (ContinueReq (extractedConfig state) (history (turns state) @ [(user, userResponse)])) w1)"
  define w3 where "w3 = snd (call_service e (ExtractReq (history (turns state) @ [(user, userResponse)])) w2)"
  define state2 where "state2 = state\<lparr>turns := turns state @
              [\<lparr>role = user, content = userResponse, timestamp = clock w\<rparr>,
               \<lparr>role = assistant, content = response, timestamp = clock w2\<rparr>]\<rparr>"
  have cs1: "call_service e (ContinueReq (extractedConfig state) (history (turns state) @ [(user, userResponse)])) w1 = (Inr c1, w2)"
    using c1 by (simp add: w2_def call_service_def)
  have cs2: "call_service e (ExtractReq (history (turns state) @ [(user, userResponse)])) w2 = (Inr c2, w3)"
    using c2 by (simp add: w3_def call_service_def)
  have "continueConfiguration e sid userResponse wz w =
             Some (Inr \<lparr>cr_response = response,
                        configComplete = fst (extraction_try e c2 state2),
                        cr_extractedConfig = extractedConfig (snd (extraction_try e c2 state2))\<rparr>,
                   \<lparr>conversations = (conversations wz)(sid \<mapsto> snd (extraction_try e c2 state2)),
                    rateLimiter = rl'\<rparr>, w3)"
    using s act wt c1 c2 tx
    by (simp add: continueConfiguration_def Let_def history_def state2_def w2_def w3_def
        call_service_def case_prod_beta)
  moreover have "calls w3 = calls w + 2" using k(3) by (simp add: w3_def w2_def)
  moreover have "drawn w3 = drawn w" using k(4) by (simp add: w3_def w2_def call_service_def)
  ultimately show ?thesis using k(1,2) state2_def by blast
qed

lemma extraction_try_unparsable:
  assumes "\<And>txt. first_text_or ''{}'' c2 = Inr txt \<Longrightarrow> JSON_parse e txt = None"
  shows "extraction_try e c2 state = (JBool False, state)"
  using assms by (auto simp: extraction_try_def split: sum.splits option.splits)

lemma extraction_try_parsed:
  assumes "first_text_or ''{}'' c2 = Inr txt" "JSON_parse e txt = Some ex"
  shows "extractedConfig (snd (extraction_try e c2 state)) = merged ex (extractedConfig state) \<and>
         turns (snd (extraction_try e c2 state)) = turns state \<and>
         sessionId (snd (extraction_try e c2 state)) = sessionId state \<and>
         suggestedTemplate (snd (extraction_try e c2 state)) = suggestedTemplate state \<and>
         status (snd (extraction_try e c2 state)) =
           (if truthy (fst (extraction_try e c2 state)) then completed else status state) \<and>
         fst (extraction_try e c2 state) = js_or_opt (get_prop_opt (Some ex) ''isComplete'') (JBool False)"
proof (cases "ex = JNull")
  case True
  then show ?thesis using assms by (simp add: extraction_try_def merged_def)
next
  case False
  from apply_extraction_nonnull[OF False, of state] obtain s5 where
    "apply_extraction ex state =
            (Inr (js_or_opt (get_prop_opt (Some ex) ''isComplete'') (JBool False)),
             if truthy (js_or_opt (get_prop_opt (Some ex) ''isComplete'') (JBool False))
             then s5\<lparr>status := completed\<rparr> else s5)"
    "extractedConfig s5 = merged ex (extractedConfig state)"
    "status s5 = status state" "sessionId s5 = sessionId state" "turns s5 = turns state"
    "suggestedTemplate s5 = suggestedTemplate state" by blast
  then show ?thesis using assms by (simp add: extraction_try_def)
qed


lemma waitIfNeeded_admits:
  assumes "int (length (requestTimes (purge (clock w) rl))) < maxRequests rl"
  shows "waitIfNeeded e rl w =
           Some ((purge (clock w) rl)\<lparr>requestTimes := requestTimes (purge (clock w) rl) @ [clock w]\<rparr>, w)"
  using assms by (subst waitIfNeeded.simps) (simp add: pass_def Let_def)

lemma startConfiguration_hint:
  assumes "startConfiguration e description wz w = Some (Inr r, wz', w')"
  shows "sr_suggestedTemplate r = suggestTemplate description \<and>
         map_option suggestedTemplate (getSession (sr_sessionId r) wz') = Some (suggestTemplate description)"
  using assms
  by (auto simp: startConfiguration_def Let_def getSession_def draw_uuid_def
      split: option.splits prod.splits sum.splits)

lemma startConfiguration_run:
  assumes lim: "1 \<le> maxRequests (rateLimiter wz)"
    and c: "complete e (ClarifyReq description (suggestTemplate description)) = Inr c1"
    and tx: "first_text_or [] c1 = Inr response"
  shows "\<exists>wz' w'. startConfiguration e description wz w =
           Some (Inr \<lparr>sr_sessionId = randomUUID e (drawn w), sr_response = response,
                      sr_suggestedTemplate = suggestTemplate description\<rparr>, wz', w')"
proof -
  obtain rl' w1 where wt: "waitIfNeeded e (rateLimiter wz) (w\<lparr>drawn := Suc (drawn w)\<rparr>) = Some (rl', w1)"
    using waitIfNeeded_returns[OF lim, of e "w\<lparr>drawn := Suc (drawn w)\<rparr>"] by blast
  show ?thesis using wt c tx
    by (simp add: startConfiguration_def Let_def draw_uuid_def call_service_def)
qed

lemma scenario_one_spec: "suggestTemplateWith scenario_keywords ''research solar panel recycling'' = None"
  by code_simp
lemma scenario_one_code: "suggestTemplate ''research solar panel recycling'' = Some ''academic_research''"
  by code_simp
lemma scenario_two_spec: "suggestTemplateWith scenario_keywords ''literature review of solar panel recycling studies'' = Some ''academic_research''"
  by code_simp
lemma scenario_two_code: "suggestTemplate ''literature review of solar panel recycling studies'' = Some ''academic_research''"
  by code_simp
lemma scenario_two_scores:
  "score (toLowerCase ''literature review of solar panel recycling studies'') [''literature'', ''study''] = 1 \<and>
   score (toLowerCase ''literature review of solar panel recycling studies'') [''market'', ''demand''] = 0 \<and>
   includes_str (toLowerCase ''literature review of solar panel recycling studies'') ''study'' = False"
  by code_simp
lemma scenario_two_scores_code:
  "map (\<lambda>p. score (toLowerCase ''literature review of solar panel recycling studies'') (snd p)) keyword_table = [0, 1, 0, 0]"
  by code_simp


lemma demo_wizard_session [simp]: "conversations (demo_wizard state) ''id-0'' = Some state"
  by (simp add: demo_wizard_def)

lemma demo_wizard_limit [simp]: "maxRequests (rateLimiter (demo_wizard state)) = 10"
  by (simp add: demo_wizard_def RateLimiter_new_def)

lemma demo_env_simps [simp]:
  "complete (demo_env x y) = demo_complete x y" "JSON_parse (demo_env x y) = demo_parse"
  "generateSystemPrompt (demo_env x y) config dm = Inr ''system''"
  "generateResearchPrompt (demo_env x y) config dm dp b = Inr ''research''"
  by (simp_all add: demo_env_def)

text \<open>
  C3. \<open>continueConfiguration\<close> on an identifier without session, or on a session whose
  status is not \<open>active\<close>, throws \<open>Invalid or expired session\<close> and leaves the wizard
  (every session with its turns, snapshot and status, and the limiter) and the world
  (clock and trace, so no call to the completion service is issued) as they were.
\<close>

theorem continue_rejects_unknown_or_closed:
  assumes "conversations wz sid = None \<or>
           (\<exists>state. conversations wz sid = Some state \<and> status state \<noteq> active)"
  shows "continueConfiguration e sid userResponse wz w =
           Some (Inl (Error ''Invalid or expired session''), wz, w)"
  using assms by (rule continueConfiguration_rejects)

theorem continue_rejects_unknown_or_closed_witness:
  "conversations ConfigurationWizard_new ''id-7'' = None \<and>
   continueConfiguration (demo_env [] []) ''id-7'' ''for executives'' ConfigurationWizard_new demo_world
     = Some (Inl (Error ''Invalid or expired session''), ConfigurationWizard_new, demo_world) \<and>
   conversations (demo_wizard (demo_session\<lparr>status := completed\<rparr>)) ''id-0''
     = Some (demo_session\<lparr>status := completed\<rparr>) \<and>
   status (demo_session\<lparr>status := completed\<rparr>) \<noteq> active \<and>
   continueConfiguration (demo_env [] []) ''id-0'' ''for executives''
       (demo_wizard (demo_session\<lparr>status := completed\<rparr>)) demo_world
     = Some (Inl (Error ''Invalid or expired session''),
             demo_wizard (demo_session\<lparr>status := completed\<rparr>), demo_world)"
  using continue_rejects_unknown_or_closed[of ConfigurationWizard_new "''id-7''" "demo_env [] []"
      "''for executives''" demo_world]
    continue_rejects_unknown_or_closed[of "demo_wizard (demo_session\<lparr>status := completed\<rparr>)" "''id-0''"
      "demo_env [] []" "''for executives''" demo_world]
  by (simp add: ConfigurationWizard_new_def)

text \<open>
  C10. A turn on an active session whose continuation call has answered with a text,
  and whose extraction response is no JSON (its content is empty, or \<open>JSON.parse\<close>
  throws on its text): \<open>continueConfiguration\<close> returns, the completion flag is \<open>false\<close>,
  the session stays \<open>active\<close> and its snapshot is what it was before the turn.
\<close>

theorem unparsable_extraction_keeps_session:
  assumes "conversations wz sid = Some state" and "status state = active"
    and "1 \<le> maxRequests (rateLimiter wz)"
    and "complete e (ContinueReq (extractedConfig state)
           (history (turns state) @ [(user, userResponse)])) = Inr c1"
    and "first_text_or [] c1 = Inr response"
    and "complete e (ExtractReq (history (turns state) @ [(user, userResponse)])) = Inr c2"
    and "\<And>txt. first_text_or ''{}'' c2 = Inr txt \<Longrightarrow> JSON_parse e txt = None"
  shows "\<exists>r wz' w' state'.
           continueConfiguration e sid userResponse wz w = Some (Inr r, wz', w') \<and>
           configComplete r = JBool False \<and>
           cr_extractedConfig r = extractedConfig state \<and>
           conversations wz' sid = Some state' \<and>
           status state' = active \<and>
           extractedConfig state' = extractedConfig state"
proof -
  from continueConfiguration_run[OF assms(1-6), of w]
  obtain rl' w' t2 state2 where
    st: "state2 = state\<lparr>turns := turns state @
              [\<lparr>role = user, content = userResponse, timestamp = clock w\<rparr>,
               \<lparr>role = assistant, content = response, timestamp = t2\<rparr>]\<rparr>"
    and run: "continueConfiguration e sid userResponse wz w =
             Some (Inr \<lparr>cr_response = response,
                        configComplete = fst (extraction_try e c2 state2),
                        cr_extractedConfig = extractedConfig (snd (extraction_try e c2 state2))\<rparr>,
                   \<lparr>conversations = (conversations wz)(sid \<mapsto> snd (extraction_try e c2 state2)),
                    rateLimiter = rl'\<rparr>, w')"
    by blast
  have "extraction_try e c2 state2 = (JBool False, state2)"
    using assms(7) by (rule extraction_try_unparsable)
  then show ?thesis using run st assms(2) by simp
qed

theorem unparsable_extraction_keeps_session_witness:
  "\<exists>r wz' w' state'.
     continueConfiguration (demo_env ''I could not extract anything.'' []) ''id-0'' ''for executives''
       (demo_wizard demo_session) demo_world = Some (Inr r, wz', w') \<and>
     configComplete r = JBool False \<and>
     cr_extractedConfig r = extractedConfig demo_session \<and>
     conversations wz' ''id-0'' = Some state' \<and>
     status state' = active \<and>
     extractedConfig state' = extractedConfig demo_session"
proof (rule unparsable_extraction_keeps_session)
  show "conversations (demo_wizard demo_session) ''id-0'' = Some demo_session" by simp
  show "status demo_session = active" by (simp add: demo_session_def)
  show "1 \<le> maxRequests (rateLimiter (demo_wizard demo_session))" by simp
  show "complete (demo_env ''I could not extract anything.'' [])
          (ContinueReq (extractedConfig demo_session)
            (history (turns demo_session) @ [(user, ''for executives'')])) = Inr [TextBlock ''Noted.'']"
    by simp
  show "first_text_or [] [TextBlock ''Noted.''] = Inr ''Noted.''" by simp
  show "complete (demo_env ''I could not extract anything.'' [])
          (ExtractReq (history (turns demo_session) @ [(user, ''for executives'')]))
        = Inr [TextBlock ''I could not extract anything.'']"
    by simp
  show "JSON_parse (demo_env ''I could not extract anything.'' []) parsed = None"
    if "first_text_or ''{}'' [TextBlock ''I could not extract anything.''] = Inr parsed" for parsed
    using that by (auto simp: demo_parse_def)
qed


text \<open>
  C8 (amended). The hint that \<open>startConfiguration\<close> returns and stores is
  \<open>suggestTemplate\<close> of the initial text. For every keyword table, the hint is absent
  exactly when no keyword of any domain occurs in the lowercased text; otherwise it is
  the first domain of the table whose number of occurring keywords is greatest. With the
  keyword lists of the scenario, \<open>research solar panel recycling\<close> has no hint; with the
  table of the source, which lists \<open>research\<close> under \<open>academic_research\<close>, its hint is
  \<open>academic_research\<close>. \<open>literature review of solar panel recycling studies\<close> has the
  hint \<open>academic_research\<close> under both, with one keyword match (\<open>literature\<close>; \<open>study\<close>
  does not occur in \<open>studies\<close>) against none for \<open>market_research\<close>.
\<close>

theorem domain_hint:
  "(startConfiguration e description wz w = Some (Inr r, wz', w') \<longrightarrow>
      sr_suggestedTemplate r = suggestTemplate description \<and>
      map_option suggestedTemplate (getSession (sr_sessionId r) wz') = Some (suggestTemplate description)) \<and>
   suggestTemplate description = suggestTemplateWith keyword_table description \<and>
   (suggestTemplateWith table description = None \<longleftrightarrow>
      (\<forall>p\<in>set table. score (toLowerCase description) (snd p) = 0)) \<and>
   (suggestTemplateWith table description = Some dn \<longrightarrow>
      (\<exists>pre ks post. table = pre @ (dn, ks) # post \<and>
         0 < score (toLowerCase description) ks \<and>
         (\<forall>p\<in>set pre. score (toLowerCase description) (snd p) < score (toLowerCase description) ks) \<and>
         (\<forall>p\<in>set post. score (toLowerCase description) (snd p) \<le> score (toLowerCase description) ks))) \<and>
   suggestTemplateWith scenario_keywords ''research solar panel recycling'' = None \<and>
   suggestTemplate ''research solar panel recycling'' = Some ''academic_research'' \<and>
   suggestTemplateWith scenario_keywords ''literature review of solar panel recycling studies''
     = Some ''academic_research'' \<and>
   suggestTemplate ''literature review of solar panel recycling studies'' = Some ''academic_research'' \<and>
   score (toLowerCase ''literature review of solar panel recycling studies'') [''literature'', ''study''] = 1 \<and>
   score (toLowerCase ''literature review of solar panel recycling studies'') [''market'', ''demand''] = 0"
  using startConfiguration_hint[of e description wz w r wz' w'] suggest_none[of table description]
    suggest_some[of table description dn] scenario_one_spec scenario_one_code scenario_two_spec
    scenario_two_code scenario_two_scores
  by (simp add: suggestTemplate_def)

theorem domain_hint_witness:
  "\<exists>r wz' w'.
     startConfiguration (demo_env [] []) ''literature review of solar panel recycling studies''
       ConfigurationWizard_new \<lparr>clock = 0, trace = [], drawn = 0\<rparr> = Some (Inr r, wz', w') \<and>
     sr_suggestedTemplate r = Some ''academic_research'' \<and>
     map_option suggestedTemplate (getSession (sr_sessionId r) wz') = Some (Some ''academic_research'') \<and>
     suggestTemplateWith scenario_keywords ''literature review of solar panel recycling studies''
       = Some ''academic_research'' \<and>
     (\<exists>pre ks post. scenario_keywords = pre @ (''academic_research'', ks) # post \<and>
         0 < score (toLowerCase ''literature review of solar panel recycling studies'') ks \<and>
         (\<forall>p\<in>set pre. score (toLowerCase ''literature review of solar panel recycling studies'') (snd p)
              < score (toLowerCase ''literature review of solar panel recycling studies'') ks) \<and>
         (\<forall>p\<in>set post. score (toLowerCase ''literature review of solar panel recycling studies'') (snd p)
              \<le> score (toLowerCase ''literature review of solar panel recycling studies'') ks))"
proof -
  let ?d = "''literature review of solar panel recycling studies''"
  let ?w = "\<lparr>clock = 0, trace = [], drawn = 0\<rparr>"
  have "1 \<le> maxRequests (rateLimiter ConfigurationWizard_new)"
    by (simp add: ConfigurationWizard_new_def RateLimiter_new_def)
  moreover have "complete (demo_env [] []) (ClarifyReq ?d (suggestTemplate ?d)) = Inr [TextBlock ''Who is the audience?'']"
    by simp
  moreover have "first_text_or [] [TextBlock ''Who is the audience?''] = Inr ''Who is the audience?''" by simp
  ultimately obtain wz' w' where run:
    "startConfiguration (demo_env [] []) ?d ConfigurationWizard_new ?w =
       Some (Inr \<lparr>sr_sessionId = randomUUID (demo_env [] []) (drawn ?w), sr_response = ''Who is the audience?'',
                  sr_suggestedTemplate = suggestTemplate ?d\<rparr>, wz', w')"
    using startConfiguration_run by blast
  let ?r = "\<lparr>sr_sessionId = randomUUID (demo_env [] []) (drawn ?w), sr_response = ''Who is the audience?'',
          sr_suggestedTemplate = suggestTemplate ?d\<rparr>"
  note H = domain_hint[of "demo_env [] []" ?d ConfigurationWizard_new ?w ?r wz' w'
        scenario_keywords "''academic_research''"]
  have a: "sr_suggestedTemplate ?r = suggestTemplate ?d \<and>
      map_option suggestedTemplate (getSession (sr_sessionId ?r) wz') = Some (suggestTemplate ?d)"
    using H run by blast
  have b: "suggestTemplate ?d = Some ''academic_research''" using H by blast
  have c: "suggestTemplateWith scenario_keywords ?d = Some ''academic_research''" using H by blast
  have d: "\<exists>pre ks post. scenario_keywords = pre @ (''academic_research'', ks) # post \<and>
         0 < score (toLowerCase ?d) ks \<and>
         (\<forall>p\<in>set pre. score (toLowerCase ?d) (snd p) < score (toLowerCase ?d) ks) \<and>
         (\<forall>p\<in>set post. score (toLowerCase ?d) (snd p) \<le> score (toLowerCase ?d) ks)"
    using H c by blast
  show ?thesis
    apply (rule exI[of _ ?r], rule exI[of _ wz'], rule exI[of _ w'])
    using run a b c d by (simp only: simp_thms)
qed

theorem domain_hint_counterexample:
  "suggestTemplate ''research solar panel recycling'' \<noteq> None \<and>
   score (toLowerCase ''literature review of solar panel recycling studies'') [''literature'', ''study''] \<noteq> 2"
  by code_simp


text \<open>
  C4 (amended). A turn on an active session whose two calls have answered and whose
  extraction text parses to the value \<open>ex\<close>: \<open>continueConfiguration\<close> returns, and in the
  snapshot of the session \<open>domain\<close>, \<open>perspective\<close>, \<open>outputFormat\<close> and \<open>constraints\<close> hold
  the value that \<open>ex\<close> has under that name when this value is truthy, \<open>audience\<close> holds
  the audience of \<open>ex\<close> when that has a truthy \<open>length\<close>, and each of the five keeps the
  value it had before the turn otherwise (the name is absent from \<open>ex\<close>, or its value
  is \<open>null\<close>, \<open>false\<close>, \<open>0\<close>, the empty string, or for \<open>audience\<close> an empty array).
  \<open>topic\<close>, the dimension list and the quality checks keep their values whatever \<open>ex\<close>
  holds.
\<close>

theorem extraction_merge:
  assumes "conversations wz sid = Some state" and "status state = active"
    and "1 \<le> maxRequests (rateLimiter wz)"
    and "complete e (ContinueReq (extractedConfig state)
           (history (turns state) @ [(user, userResponse)])) = Inr c1"
    and "first_text_or [] c1 = Inr response"
    and "complete e (ExtractReq (history (turns state) @ [(user, userResponse)])) = Inr c2"
    and "first_text_or ''{}'' c2 = Inr extracted"
    and "JSON_parse e extracted = Some ex"
  shows "\<exists>r wz' w' sn'.
           continueConfiguration e sid userResponse wz w = Some (Inr r, wz', w') \<and>
           snapshot_of sid wz' = Some sn' \<and>
           cr_extractedConfig r = sn' \<and>
           domain (cfg_context sn') =
             js_or_opt (get_prop_opt (Some ex) ''domain'') (domain (cfg_context (extractedConfig state))) \<and>
           audience (cfg_context sn') =
             (case get_prop_opt (Some ex) ''audience'' of
                None \<Rightarrow> audience (cfg_context (extractedConfig state))
              | Some v \<Rightarrow> if truthy_opt (get_prop_opt (Some v) ''length'') then v
                          else audience (cfg_context (extractedConfig state))) \<and>
           perspective (cfg_context sn') =
             js_or_opt (get_prop_opt (Some ex) ''perspective'')
               (perspective (cfg_context (extractedConfig state))) \<and>
           constraints (cfg_context sn') =
             (case get_prop_opt (Some ex) ''constraints'' of
                None \<Rightarrow> constraints (cfg_context (extractedConfig state))
              | Some v \<Rightarrow> if truthy v then Some v
                          else constraints (cfg_context (extractedConfig state))) \<and>
           outputFormat sn' =
             js_or_opt (get_prop_opt (Some ex) ''outputFormat'') (outputFormat (extractedConfig state)) \<and>
           topic sn' = topic (extractedConfig state) \<and>
           dimensions sn' = dimensions (extractedConfig state) \<and>
           qualityChecks sn' = qualityChecks (extractedConfig state)"
proof -
  from continueConfiguration_run[OF assms(1-6), of w]
  obtain rl' w' t2 state2 where
    st: "state2 = state\<lparr>turns := turns state @
              [\<lparr>role = user, content = userResponse, timestamp = clock w\<rparr>,
               \<lparr>role = assistant, content = response, timestamp = t2\<rparr>]\<rparr>"
    and run: "continueConfiguration e sid userResponse wz w =
             Some (Inr \<lparr>cr_response = response,
                        configComplete = fst (extraction_try e c2 state2),
                        cr_extractedConfig = extractedConfig (snd (extraction_try e c2 state2))\<rparr>,
                   \<lparr>conversations = (conversations wz)(sid \<mapsto> snd (extraction_try e c2 state2)),
                    rateLimiter = rl'\<rparr>, w')"
    by blast
  have sn: "extractedConfig (snd (extraction_try e c2 state2)) = merged ex (extractedConfig state)"
    using extraction_try_parsed[OF assms(7,8), of state2] st by simp
  let ?wz = "\<lparr>conversations = (conversations wz)(sid \<mapsto> snd (extraction_try e c2 state2)),
                    rateLimiter = rl'\<rparr>"
  have "snapshot_of sid ?wz = Some (merged ex (extractedConfig state))"
    using sn by (simp add: snapshot_of_def getSession_def)
  then show ?thesis using run sn
    by (intro exI[of _ "merged ex (extractedConfig state)"] exI[of _ ?wz] exI[of _ w']
        exI[of _ "\<lparr>cr_response = response,
                        configComplete = fst (extraction_try e c2 state2),
                        cr_extractedConfig = extractedConfig (snd (extraction_try e c2 state2))\<rparr>"])
      (simp add: merged_def)
qed

theorem extraction_merge_witness:
  "\<exists>r wz' w' sn'.
     continueConfiguration (demo_env ''{\"audience\": [\"executives\"], \"isComplete\": false}'' [])
       ''id-0'' ''for executives'' (demo_wizard demo_session) demo_world = Some (Inr r, wz', w') \<and>
     snapshot_of ''id-0'' wz' = Some sn' \<and>
     audience (cfg_context sn') = JArr [JStr ''executives''] \<and>
     perspective (cfg_context sn') = JStr ''business'' \<and>
     domain (cfg_context sn') = JStr ''custom'' \<and>
     outputFormat sn' = JStr ''synthesis'' \<and>
     constraints (cfg_context sn') = None \<and>
     dimensions sn' = []"
proof -
  let ?x = "''{\"audience\": [\"executives\"], \"isComplete\": false}''"
  let ?ex = "JObj [(''audience'', JArr [JStr ''executives'']), (''isComplete'', JBool False)]"
  have 1: "conversations (demo_wizard demo_session) ''id-0'' = Some demo_session" by simp
  have 2: "status demo_session = active" by (simp add: demo_session_def)
  have 3: "1 \<le> maxRequests (rateLimiter (demo_wizard demo_session))" by simp
  have 4: "complete (demo_env ?x [])
          (ContinueReq (extractedConfig demo_session)
            (history (turns demo_session) @ [(user, ''for executives'')])) = Inr [TextBlock ''Noted.'']"
    by simp
  have 5: "first_text_or [] [TextBlock ''Noted.''] = Inr ''Noted.''" by simp
  have 6: "complete (demo_env ?x [])
          (ExtractReq (history (turns demo_session) @ [(user, ''for executives'')])) = Inr [TextBlock ?x]"
    by simp
  have 7: "first_text_or ''{}'' [TextBlock ?x] = Inr ?x" by simp
  have 8: "JSON_parse (demo_env ?x []) ?x = Some ?ex" by (simp add: demo_parse_def)
  from extraction_merge[OF 1 2 3 4 5 6 7 8, of demo_world]
  show ?thesis by (simp add: demo_session_def js_or_def) blast
qed

text \<open>
  The extraction \<open>{"dimensions": ["cost"], "perspective": ""}\<close> states a dimension list
  and a perspective; after the turn the snapshot of the session is what it was before,
  with no dimension and the perspective \<open>business\<close>.
\<close>

theorem extraction_merge_counterexample:
  "get_prop_opt (demo_parse ''{\"dimensions\": [\"cost\"], \"perspective\": \"\"}'') ''dimensions''
     = Some (JArr [JStr ''cost'']) \<and>
   get_prop_opt (demo_parse ''{\"dimensions\": [\"cost\"], \"perspective\": \"\"}'') ''perspective''
     = Some (JStr []) \<and>
   map_option configComplete
     (returned (continueConfiguration (demo_env ''{\"dimensions\": [\"cost\"], \"perspective\": \"\"}'' [])
        ''id-0'' ''look at cost'' (demo_wizard demo_session) demo_world)) = Some (JBool False) \<and>
   Option.bind
     (state_after (continueConfiguration (demo_env ''{\"dimensions\": [\"cost\"], \"perspective\": \"\"}'' [])
        ''id-0'' ''look at cost'' (demo_wizard demo_session) demo_world))
     (snapshot_of ''id-0'') = Some (extractedConfig demo_session) \<and>
   dimensions (extractedConfig demo_session) = [] \<and>
   perspective (cfg_context (extractedConfig demo_session)) = JStr ''business''"
proof -
  let ?x = "''{\"dimensions\": [\"cost\"], \"perspective\": \"\"}''"
  let ?ex = "JObj [(''dimensions'', JArr [JStr ''cost'']), (''perspective'', JStr [])]"
  have p: "demo_parse ?x = Some ?ex" by (simp add: demo_parse_def)
  have 1: "conversations (demo_wizard demo_session) ''id-0'' = Some demo_session" by simp
  have 2: "status demo_session = active" by (simp add: demo_session_def)
  have 3: "1 \<le> maxRequests (rateLimiter (demo_wizard demo_session))" by simp
  have 4: "complete (demo_env ?x [])
          (ContinueReq (extractedConfig demo_session)
            (history (turns demo_session) @ [(user, ''look at cost'')])) = Inr [TextBlock ''Noted.'']"
    by simp
  have 5: "first_text_or [] [TextBlock ''Noted.''] = Inr ''Noted.''" by simp
  have 6: "complete (demo_env ?x [])
          (ExtractReq (history (turns demo_session) @ [(user, ''look at cost'')])) = Inr [TextBlock ?x]"
    by simp
  have 7: "first_text_or ''{}'' [TextBlock ?x] = Inr ?x" by simp
  have 8: "JSON_parse (demo_env ?x []) ?x = Some ?ex" using p by simp
  from continueConfiguration_run[OF 1 2 3 4 5 6, of demo_world]
  obtain rl' w' t2 state2 where
    st: "state2 = demo_session\<lparr>turns := turns demo_session @
              [\<lparr>role = user, content = ''look at cost'', timestamp = clock demo_world\<rparr>,
               \<lparr>role = assistant, content = ''Noted.'', timestamp = t2\<rparr>]\<rparr>"
    and run: "continueConfiguration (demo_env ?x []) ''id-0'' ''look at cost'' (demo_wizard demo_session) demo_world =
             Some (Inr \<lparr>cr_response = ''Noted.'',
                        configComplete = fst (extraction_try (demo_env ?x []) [TextBlock ?x] state2),
                        cr_extractedConfig = extractedConfig (snd (extraction_try (demo_env ?x []) [TextBlock ?x] state2))\<rparr>,
                   \<lparr>conversations = (conversations (demo_wizard demo_session))(''id-0'' \<mapsto>
                        snd (extraction_try (demo_env ?x []) [TextBlock ?x] state2)),
                    rateLimiter = rl'\<rparr>, w')"
    by blast
  note ep = extraction_try_parsed[OF 7 8, of state2]
  have sn: "extractedConfig (snd (extraction_try (demo_env ?x []) [TextBlock ?x] state2))
              = extractedConfig demo_session"
    using ep st by (simp add: merged_def demo_session_def js_or_def)
  have fl: "fst (extraction_try (demo_env ?x []) [TextBlock ?x] state2) = JBool False"
    using ep by simp
  show ?thesis using run sn fl p
    by (simp add: snapshot_of_def getSession_def demo_session_def)
qed


















text \<open>
  The audience of a session that never stated one is the empty array, which is truthy:
  the default \<open>['general']\<close> of line 272 does not replace it.
\<close>

lemma plan_audience_of_fresh_session:
  "audience (cfg_context (plan_config (extractedConfig demo_market_session) dims checks uuid)) = JArr []"
  by (simp add: plan_config_def demo_market_session_def js_or_def)


section \<open>Units of work and their orchestration\<close>

lemma parseResearchResults_run:
  assumes lim: "1 \<le> maxRequests rl"
  shows "\<exists>rl' w'. parseResearchResults e responseText dm config rl w =
            Some (map_sum id (\<lambda>c. structure_results e c responseText dm w')
                    (complete e (StructuringReq responseText dm)), rl', w') \<and>
          maxRequests rl' = maxRequests rl \<and> windowMs rl' = windowMs rl \<and> calls w' = calls w + 1"
proof -
  obtain rl' w1 where wt: "waitIfNeeded e rl w = Some (rl', w1)"
    and k: "maxRequests rl' = maxRequests rl" "windowMs rl' = windowMs rl" "calls w1 = calls w"
    using waitIfNeeded_returns[OF lim, of e w] by blast
  show ?thesis using wt k
    by (cases "complete e (StructuringReq responseText dm)")
      (simp_all add: parseResearchResults_def call_service_def calls_def)
qed

lemma performResearch_run:
  assumes lim: "1 \<le> maxRequests rl"
  shows "\<exists>res rl' w'. performResearch e agent config comprehensive True rl w = Some (res, rl', w') \<and>
          maxRequests rl' = maxRequests rl \<and> windowMs rl' = windowMs rl \<and>
          calls w' = calls w + snd (unit_outcome e config agent) \<and>
          (case res of Inl err \<Rightarrow> fst (unit_outcome e config agent) = failed
                     | Inr r \<Rightarrow> fst (unit_outcome e config agent) = agent_completed)"
proof (cases "generateSystemPrompt e config (dimension agent)")
  case (Inl err)
  then show ?thesis by (simp add: performResearch_def unit_outcome_def)
next
  case sp: (Inr systemPrompt)
  show ?thesis
  proof (cases "generateResearchPrompt e config (dimension agent) comprehensive True")
    case (Inl err)
    then show ?thesis using sp by (simp add: performResearch_def unit_outcome_def)
  next
    case up: (Inr userPrompt)
    obtain rl1 w1 where wt: "waitIfNeeded e rl w = Some (rl1, w1)"
      and k: "maxRequests rl1 = maxRequests rl" "windowMs rl1 = windowMs rl" "calls w1 = calls w"
      using waitIfNeeded_returns[OF lim, of e w] by blast
    let ?req = "ResearchReq (agent_id agent) systemPrompt userPrompt"
    let ?w2 = "snd (call_service e ?req w1)"
    have c2: "calls ?w2 = calls w + 1" using k by simp
    show ?thesis
    proof (cases "complete e ?req")
      case (Inl err)
      then show ?thesis using sp up wt k c2
        by (simp add: performResearch_def unit_outcome_def call_service_def)
    next
      case cm: (Inr completion)
      show ?thesis
      proof (cases "first_text_or [] completion")
        case (Inl err)
        then show ?thesis using sp up wt k c2 cm
          by (simp add: performResearch_def unit_outcome_def call_service_def)
      next
        case tx: (Inr responseText)
        have lim1: "1 \<le> maxRequests rl1" using lim k by simp
        from parseResearchResults_run[OF lim1, of e responseText "dimension agent" config ?w2]
        obtain rl' w' where p: "parseResearchResults e responseText (dimension agent) config rl1 ?w2 =
            Some (map_sum id (\<lambda>c. structure_results e c responseText (dimension agent) w')
                    (complete e (StructuringReq responseText (dimension agent))), rl', w')"
          and k': "maxRequests rl' = maxRequests rl1" "windowMs rl' = windowMs rl1" "calls w' = calls ?w2 + 1"
          by blast
        have "performResearch e agent config comprehensive True rl w =
                parseResearchResults e responseText (dimension agent) config rl1 ?w2"
          using sp up wt cm tx by (simp add: performResearch_def call_service_def)
        then show ?thesis using p k k' c2 sp up cm tx
          by (cases "complete e (StructuringReq responseText (dimension agent))")
            (simp_all add: unit_outcome_def)
      qed
    qed
  qed
qed

lemma unit_outcome_running [simp]:
  "unit_outcome e config (agent\<lparr>agent_status := st\<rparr>) = unit_outcome e config agent"
  by (simp add: unit_outcome_def cong: sum.case_cong)

lemma run_agent_run:
  assumes lim: "1 \<le> maxRequests rl"
  shows "\<exists>agent' rl' w'. run_agent e config agent rl w = Some (agent', rl', w') \<and>
          maxRequests rl' = maxRequests rl \<and> windowMs rl' = windowMs rl \<and>
          agent_status agent' = fst (unit_outcome e config agent) \<and>
          agent_id agent' = agent_id agent \<and> dimension agent' = dimension agent \<and>
          parentTaskId agent' = parentTaskId agent \<and>
          calls w' = calls w + snd (unit_outcome e config agent)"
proof -
  let ?a = "agent\<lparr>agent_status := running\<rparr>"
  from performResearch_run[OF lim, of e ?a config w]
  obtain res rl' w' where
    p: "performResearch e ?a config comprehensive True rl w = Some (res, rl', w')"
    and k: "maxRequests rl' = maxRequests rl" "windowMs rl' = windowMs rl"
      "calls w' = calls w + snd (unit_outcome e config ?a)"
      "(case res of Inl err \<Rightarrow> fst (unit_outcome e config ?a) = failed
                     | Inr r \<Rightarrow> fst (unit_outcome e config ?a) = agent_completed)"
    by blast
  have o: "unit_outcome e config ?a = unit_outcome e config agent" by simp
  show ?thesis using p k unfolding o by (cases res) (simp_all add: run_agent_def)
qed

lemma unit_outcome_cong:
  "agent_id a' = agent_id a \<Longrightarrow> dimension a' = dimension a \<Longrightarrow>
     unit_outcome e config a' = unit_outcome e config a"
  by (simp add: unit_outcome_def cong: sum.case_cong)

lemma run_agents_run:
  assumes lim: "1 \<le> maxRequests rl"
  shows "\<exists>agents' rl' w'. run_agents e config agents rl w = Some (agents', rl', w') \<and>
          maxRequests rl' = maxRequests rl \<and> windowMs rl' = windowMs rl \<and>
          map agent_status agents' = map (\<lambda>a. fst (unit_outcome e config a)) agents \<and>
          map agent_id agents' = map agent_id agents \<and>
          map dimension agents' = map dimension agents \<and>
          calls w' = calls w + sum_list (map (\<lambda>a. snd (unit_outcome e config a)) agents)"
  using lim
proof (induction agents arbitrary: rl w)
  case Nil
  then show ?case by simp
next
  case (Cons a rest)
  from run_agent_run[OF Cons.prems, of e config a w]
  obtain a' rl1 w1 where r: "run_agent e config a rl w = Some (a', rl1, w1)"
    and k: "maxRequests rl1 = maxRequests rl" "windowMs rl1 = windowMs rl"
      "agent_status a' = fst (unit_outcome e config a)" "agent_id a' = agent_id a"
      "dimension a' = dimension a" "calls w1 = calls w + snd (unit_outcome e config a)"
    by blast
  have lim1: "1 \<le> maxRequests rl1" using Cons.prems k by simp
  from Cons.IH[OF lim1, of w1]
  obtain rest' rl2 w2 where r2: "run_agents e config rest rl1 w1 = Some (rest', rl2, w2)"
    and k2: "maxRequests rl2 = maxRequests rl1" "windowMs rl2 = windowMs rl1"
      "map agent_status rest' = map (\<lambda>a. fst (unit_outcome e config a)) rest"
      "map agent_id rest' = map agent_id rest" "map dimension rest' = map dimension rest"
      "calls w2 = calls w1 + sum_list (map (\<lambda>a. snd (unit_outcome e config a)) rest)"
    by blast
  show ?case using r r2 k k2 by simp
qed






lemma consecutive_slices_Nil [simp]: "consecutive_slices m [] = []"
  by (simp add: consecutive_slices.simps)

lemma consecutive_slices_step:
  "0 < m \<Longrightarrow> xs \<noteq> [] \<Longrightarrow>
     consecutive_slices m xs = take m xs # consecutive_slices m (drop m xs)"
  by (subst consecutive_slices.simps) simp







lemma run_agents_length:
  "run_agents e config agents rl w = Some (agents', rl', w') \<Longrightarrow> length agents' = length agents"
  by (induction agents arbitrary: agents' rl w) (auto split: option.splits)

lemma js_slice_next:
  assumes "0 < m"
  shows "js_slice (pre @ todo) (int (length pre)) (int (length pre) + int m) = take m todo"
proof -
  have e: "int (length pre) + int m = int (length pre + m)" by simp
  show ?thesis unfolding e
    by (auto simp: js_slice_def slice_index_def Let_def min_def simp del: of_nat_add)
qed

lemma slice_index_nat: "i \<le> len \<Longrightarrow> slice_index len (int i) = i"
  by (simp add: slice_index_def)

lemma parallel_loop_run:
  assumes m: "0 < m" and lim: "1 \<le> maxRequests rl"
    and j: "length pre \<le> j" "todo \<noteq> [] \<Longrightarrow> j = length pre"
  shows "\<exists>todo' rl' w'.
           parallel_loop e config (int m) (int j) (pre @ todo) formed rl w =
             Some (pre @ todo', formed @ consecutive_slices m todo, rl', w') \<and>
           maxRequests rl' = maxRequests rl \<and>
           map agent_status todo' = map (\<lambda>a. fst (unit_outcome e config a)) todo \<and>
           map agent_id todo' = map agent_id todo \<and>
           map dimension todo' = map dimension todo \<and>
           calls w' = calls w + sum_list (map (\<lambda>a. snd (unit_outcome e config a)) todo)"
  using lim j
proof (induction "length todo" arbitrary: pre todo j formed rl w rule: less_induct)
  case less
  show ?case
  proof (cases "todo = []")
    case True
    then show ?thesis using less.prems(2)
      by (subst parallel_loop.simps) simp
  next
    case False
    note ne = False
    have jl: "j = length pre" using less.prems(3) ne by simp
    let ?batch = "take m todo"
    have cond: "int j < int (length (pre @ todo))" using jl ne by simp
    have s: "slice_index (length (pre @ todo)) (int j) = length pre"
      using jl by (simp add: slice_index_nat)
    have b: "js_slice (pre @ todo) (int j) (int j + int m) = ?batch"
      using js_slice_next[OF m, of pre todo] jl by simp
    from run_agents_run[OF less.prems(1), of e config ?batch w]
    obtain batch' rl1 w1 where r: "run_agents e config ?batch rl w = Some (batch', rl1, w1)"
      and k: "maxRequests rl1 = maxRequests rl"
        "map agent_status batch' = map (\<lambda>a. fst (unit_outcome e config a)) ?batch"
        "map agent_id batch' = map agent_id ?batch" "map dimension batch' = map dimension ?batch"
        "calls w1 = calls w + sum_list (map (\<lambda>a. snd (unit_outcome e config a)) ?batch)"
      by blast
    have lb: "length batch' = length ?batch" using k(3) by (metis length_map)
    let ?w1 = "if int j + int m < int (length (pre @ todo)) then sleep e (Some 2000) w1 else w1"
    have cw: "calls ?w1 = calls w1" by simp
    have written: "take (length pre) (pre @ todo) @ batch' @ drop (length pre + length batch') (pre @ todo)
                     = (pre @ batch') @ drop m todo"
      using lb by (simp add: min_def)
    have step: "parallel_loop e config (int m) (int j) (pre @ todo) formed rl w =
                  parallel_loop e config (int m) (int (j + m)) ((pre @ batch') @ drop m todo)
                    (formed @ [?batch]) rl1 ?w1"
      using cond s b r written
      by (subst parallel_loop.simps) (simp add: Let_def)
    have lt: "length (drop m todo) < length todo" using ne m by simp
    have lim1: "1 \<le> maxRequests rl1" using less.prems(1) k(1) by simp
    have j1: "length (pre @ batch') \<le> j + m" using jl lb by simp
    have j2: "drop m todo \<noteq> [] \<Longrightarrow> j + m = length (pre @ batch')" using jl lb by simp
    from less.hyps[OF lt lim1 j1 j2, of "formed @ [?batch]" ?w1]
    obtain rest' rl' w' where
      rr: "parallel_loop e config (int m) (int (j + m)) ((pre @ batch') @ drop m todo)
             (formed @ [?batch]) rl1 ?w1 =
             Some ((pre @ batch') @ rest', (formed @ [?batch]) @ consecutive_slices m (drop m todo), rl', w')"
      and kk: "maxRequests rl' = maxRequests rl1"
        "map agent_status rest' = map (\<lambda>a. fst (unit_outcome e config a)) (drop m todo)"
        "map agent_id rest' = map agent_id (drop m todo)"
        "map dimension rest' = map dimension (drop m todo)"
        "calls w' = calls ?w1 + sum_list (map (\<lambda>a. snd (unit_outcome e config a)) (drop m todo))"
      by blast
    have split: "\<And>f. map f todo = map f ?batch @ map f (drop m todo)"
      by (metis append_take_drop_id map_append)
    have st: "map agent_status (batch' @ rest') = map (\<lambda>a. fst (unit_outcome e config a)) todo"
      using k(2) kk(2) split[of "\<lambda>a. fst (unit_outcome e config a)"] by simp
    have ids: "map agent_id (batch' @ rest') = map agent_id todo"
      using k(3) kk(3) split[of agent_id] by simp
    have dms: "map dimension (batch' @ rest') = map dimension todo"
      using k(4) kk(4) split[of dimension] by simp
    have cl: "calls w' = calls w + sum_list (map (\<lambda>a. snd (unit_outcome e config a)) todo)"
    proof -
      have "sum_list (map (\<lambda>a. snd (unit_outcome e config a)) todo)
              = sum_list (map (\<lambda>a. snd (unit_outcome e config a)) ?batch)
                + sum_list (map (\<lambda>a. snd (unit_outcome e config a)) (drop m todo))"
        using split[of "\<lambda>a. snd (unit_outcome e config a)"] by simp
      then show ?thesis using kk(5) cw k(5) by simp
    qed
    have fm: "(formed @ [?batch]) @ consecutive_slices m (drop m todo) = formed @ consecutive_slices m todo"
      using consecutive_slices_step[OF m ne] by simp
    show ?thesis
      using step rr kk(1) k(1) st ids dms cl fm
      by (intro exI[of _ "batch' @ rest'"] exI[of _ rl'] exI[of _ w']) simp
  qed
qed


lemma slice_length_bound:
  "slice_index (length xs) i + length (js_slice xs i k) \<le> length xs"
  by (auto simp: js_slice_def slice_index_def Let_def)

lemma parallel_loop_never_returns_aux:
  assumes "parallel_loop e config m i agents formed rl w = Some y"
  shows "\<not> (m \<le> 0 \<and> i < int (length agents))"
proof (rule parallel_loop.raw_induct[where P = "\<lambda>e config m i agents formed rl w y.
          \<not> (m \<le> 0 \<and> i < int (length agents))", OF _ assms])
  fix f e config m i agents formed rl w y
  assume IH: "\<And>e config m i agents formed rl w y.
                f e config m i agents formed rl w = Some y \<Longrightarrow> \<not> (m \<le> 0 \<and> i < int (length agents))"
    and body: "(if i < int (length agents)
      then let s = slice_index (length agents) i;
               batch = js_slice agents i (i + m)
           in case run_agents e config batch rl w of None \<Rightarrow> None
              | Some (batch', rl1, w1) \<Rightarrow>
                  f e config m (i + m)
                   (take s agents @ batch' @ drop (s + length batch') agents)
                   (formed @ [batch]) rl1
                   (if i + m < int (length agents) then sleep e (Some 2000) w1 else w1)
      else Some (agents, formed, rl, w)) = Some y"
  show "\<not> (m \<le> 0 \<and> i < int (length agents))"
  proof
    assume h: "m \<le> 0 \<and> i < int (length agents)"
    let ?s = "slice_index (length agents) i"
    let ?batch = "js_slice agents i (i + m)"
    from body h obtain batch' rl1 w1 where
      r: "run_agents e config ?batch rl w = Some (batch', rl1, w1)"
      and f: "f e config m (i + m) (take ?s agents @ batch' @ drop (?s + length batch') agents)
                (formed @ [?batch]) rl1
                (if i + m < int (length agents) then sleep e (Some 2000) w1 else w1) = Some y"
      by (auto simp: Let_def split: option.splits)
    have lb: "length batch' = length ?batch" using r by (rule run_agents_length)
    have "?s + length ?batch \<le> length agents" by (rule slice_length_bound)
    then have len: "length (take ?s agents @ batch' @ drop (?s + length batch') agents) = length agents"
      using lb by simp
    from IH[OF f] have "\<not> (m \<le> 0 \<and> i + m < int (length agents))" unfolding len .
    then show False using h by simp
  qed
qed

lemma parallel_loop_never_returns:
  assumes "m \<le> 0" and "i < int (length agents)"
  shows "parallel_loop e config m i agents formed rl w = None"
proof (cases "parallel_loop e config m i agents formed rl w")
  case None
  then show ?thesis .
next
  case (Some y)
  then show ?thesis using parallel_loop_never_returns_aux[OF Some] assms by simp
qed


lemma runParallelResearch_run:
  assumes m: "1 \<le> maxConcurrent" and lim: "1 \<le> maxRequests rl"
  shows "\<exists>agents' rl' w'.
           runParallelResearch e config (Some maxConcurrent) subAgents rl w =
             Some (agents', consecutive_slices (nat maxConcurrent) subAgents, rl', w') \<and>
           maxRequests rl' = maxRequests rl \<and>
           map agent_status agents' = map (\<lambda>a. fst (unit_outcome e config a)) subAgents \<and>
           map agent_id agents' = map agent_id subAgents \<and>
           map dimension agents' = map dimension subAgents \<and>
           calls w' = calls w + sum_list (map (\<lambda>a. snd (unit_outcome e config a)) subAgents)"
proof -
  have pos: "0 < nat maxConcurrent" using m by simp
  have eq: "int (nat maxConcurrent) = maxConcurrent" using m by simp
  from parallel_loop_run[OF pos lim, of "[]" 0 subAgents e config "[]" w]
  show ?thesis unfolding runParallelResearch_def eq by simp
qed

lemma unit_outcome_terminal:
  "fst (unit_outcome e config a) = agent_completed \<or> fst (unit_outcome e config a) = failed"
  by (simp add: unit_outcome_def split: sum.splits)

text \<open>
  A unit is isolated from the failures of the others: its outcome is the same under two
  services that build the same prompts and differ only in how they answer the research
  calls of other units.
\<close>

lemma unit_outcome_isolated:
  assumes "generateSystemPrompt e' = generateSystemPrompt e"
    and "generateResearchPrompt e' = generateResearchPrompt e"
    and "\<And>r. (\<And>sp up. r \<noteq> ResearchReq other_id sp up) \<Longrightarrow> complete e' r = complete e r"
    and "agent_id a \<noteq> other_id"
  shows "unit_outcome e' config a = unit_outcome e config a"
proof -
  have r: "complete e' (ResearchReq (agent_id a) sp up) = complete e (ResearchReq (agent_id a) sp up)" for sp up
    using assms(3,4) by simp
  have s: "complete e' (StructuringReq t dm) = complete e (StructuringReq t dm)" for t dm
    using assms(3) by simp
  show ?thesis
    by (simp add: unit_outcome_def assms(1,2) r s cong: sum.case_cong)
qed

text \<open>
  With a cap of at least one, both modes return every unit in a terminal state. When
  the service \<open>e'\<close> differs from \<open>e\<close> only in how it answers the research calls of the
  unit \<open>i\<close> (which it may fail), every unit \<open>j\<close> with another identifier ends under \<open>e'\<close>
  as it does under \<open>e\<close>.
\<close>

lemma failure_isolation:
  assumes m: "1 \<le> maxConcurrent" and lim: "1 \<le> maxRequests rl"
    and sp: "generateSystemPrompt e' = generateSystemPrompt e"
    and up: "generateResearchPrompt e' = generateResearchPrompt e"
    and agree: "\<And>r. (\<And>sp up. r \<noteq> ResearchReq (agent_id (subAgents ! i)) sp up) \<Longrightarrow>
                  complete e' r = complete e r"
    and j: "j < length subAgents" "agent_id (subAgents ! j) \<noteq> agent_id (subAgents ! i)"
  shows "\<exists>agentsP agentsS.
           map_option fst (runParallelResearch e' config (Some maxConcurrent) subAgents rl w) = Some agentsP \<and>
           map_option fst (runSequentialResearch e' config subAgents rl w) = Some agentsS \<and>
           length agentsP = length subAgents \<and> length agentsS = length subAgents \<and>
           (\<forall>a\<in>set agentsP \<union> set agentsS. agent_status a = agent_completed \<or> agent_status a = failed) \<and>
           agent_status (agentsP ! j) = fst (unit_outcome e config (subAgents ! j)) \<and>
           agent_status (agentsS ! j) = fst (unit_outcome e config (subAgents ! j))"
proof -
  from runParallelResearch_run[OF m lim, of e' config subAgents w]
  obtain agentsP rlP wP where P: "runParallelResearch e' config (Some maxConcurrent) subAgents rl w =
      Some (agentsP, consecutive_slices (nat maxConcurrent) subAgents, rlP, wP)"
    and sP: "map agent_status agentsP = map (\<lambda>a. fst (unit_outcome e' config a)) subAgents" by blast
  from run_agents_run[OF lim, of e' config subAgents w]
  obtain agentsS rlS wS where S: "run_agents e' config subAgents rl w = Some (agentsS, rlS, wS)"
    and sS: "map agent_status agentsS = map (\<lambda>a. fst (unit_outcome e' config a)) subAgents" by blast
  have lP: "length agentsP = length subAgents" using sP by (metis length_map)
  have lS: "length agentsS = length subAgents" using sS by (metis length_map)
  have at: "agent_status (xs ! n) = fst (unit_outcome e' config (subAgents ! n))"
    if "map agent_status xs = map (\<lambda>a. fst (unit_outcome e' config a)) subAgents" "n < length subAgents"
    for xs n
  proof -
    have "agent_status (xs ! n) = map agent_status xs ! n" using that by (metis length_map nth_map)
    then show ?thesis using that by simp
  qed
  have ends: "agent_status a = agent_completed \<or> agent_status a = failed"
    if eq: "map agent_status xs = map (\<lambda>a. fst (unit_outcome e' config a)) subAgents" and a: "a \<in> set xs"
    for xs a
  proof -
    from a obtain n where n: "n < length xs" "xs ! n = a" by (auto simp: in_set_conv_nth)
    have "n < length subAgents" using n(1) eq by (metis length_map)
    from at[OF eq this] n(2) show ?thesis using unit_outcome_terminal[of e' config "subAgents ! n"] by simp
  qed
  have same: "unit_outcome e' config (subAgents ! j) = unit_outcome e config (subAgents ! j)"
    by (rule unit_outcome_isolated[OF sp up agree j(2)])
  have all: "\<forall>a\<in>set agentsP \<union> set agentsS. agent_status a = agent_completed \<or> agent_status a = failed"
    using ends[OF sP] ends[OF sS] by blast
  show ?thesis
    apply (rule exI[of _ agentsP], rule exI[of _ agentsS])
    using P S lP lS all at[OF sP j(1)] at[OF sS j(1)] same
    by (simp add: runSequentialResearch_def)
qed





lemma demo_units_length: "length demo_units = 3"
  by (simp add: demo_units_def fallback_dimensions_def)



lemma demo_outcomes:
  "map (\<lambda>a. unit_outcome (demo_env [] []) demo_config a) demo_units
     = [(agent_completed, 2), (failed, 1), (agent_completed, 2)]"
  by (simp add: demo_units_def fallback_dimensions_def unit_outcome_def demo_unit_def)

text \<open>
  C2. Three units, of which the service fails the research call of the unit \<open>unit-1\<close>.
  The sequential mode returns the three units, the second \<open>failed\<close> and the others
  \<open>completed\<close>, and so does the concurrent mode with the cap 2. With the cap 0, which
  \<open>runFlexibleResearch\<close> passes on as it receives it, the loop of the concurrent mode
  forms empty slices without advancing, and the call never returns.
\<close>

theorem concurrent_mode_cap_zero_never_returns:
  "map_option (map agent_status \<circ> fst)
     (runSequentialResearch (demo_env [] []) demo_config demo_units FlexibleResearchAgent_new demo_world)
     = Some [agent_completed, failed, agent_completed] \<and>
   map_option (map agent_status \<circ> fst)
     (runParallelResearch (demo_env [] []) demo_config (Some 2) demo_units FlexibleResearchAgent_new demo_world)
     = Some [agent_completed, failed, agent_completed] \<and>
   runParallelResearch (demo_env [] []) demo_config (Some 0) demo_units FlexibleResearchAgent_new demo_world
     = None"
proof -
  have lim: "1 \<le> maxRequests FlexibleResearchAgent_new"
    by (simp add: FlexibleResearchAgent_new_def RateLimiter_new_def)
  have o: "map (\<lambda>a. fst (unit_outcome (demo_env [] []) demo_config a)) demo_units
             = [agent_completed, failed, agent_completed]"
    using demo_outcomes[THEN arg_cong, of "map fst"] by (simp add: comp_def)
  from run_agents_run[OF lim, of "demo_env [] []" demo_config demo_units demo_world]
  have a: "map_option (map agent_status \<circ> fst)
     (runSequentialResearch (demo_env [] []) demo_config demo_units FlexibleResearchAgent_new demo_world)
     = Some [agent_completed, failed, agent_completed]"
    unfolding o by (auto simp: runSequentialResearch_def)
  have m: "(1::int) \<le> 2" by simp
  from runParallelResearch_run[OF m lim, of "demo_env [] []" demo_config demo_units demo_world]
  have b: "map_option (map agent_status \<circ> fst)
     (runParallelResearch (demo_env [] []) demo_config (Some 2) demo_units FlexibleResearchAgent_new demo_world)
     = Some [agent_completed, failed, agent_completed]"
    unfolding o by auto
  have c: "runParallelResearch (demo_env [] []) demo_config (Some 0) demo_units FlexibleResearchAgent_new demo_world
     = None"
    unfolding runParallelResearch_def
    by (simp add: parallel_loop_never_returns demo_units_length)
  show ?thesis using a b c by (simp only: simp_thms)
qed



end
